
theory Spec2Isabelle
  imports Main "HOL-Library.Word"
begin

section \<open>The telnet command server of ESP32S3\_EasyConnect\<close>

text \<open>
  The development embeds the telnet subsystem of \<^verbatim>\<open>ESP32-S3_EasyConnect.cpp\<close>:
  \<^verbatim>\<open>handleTelnet\<close>, \<^verbatim>\<open>broadcastTelnet\<close>, \<^verbatim>\<open>sendToTelnet\<close>, \<^verbatim>\<open>log\<close>, \<^verbatim>\<open>logln\<close>,
  \<^verbatim>\<open>getTelnetClientCount\<close>, \<^verbatim>\<open>disconnectTelnetClients\<close>, \<^verbatim>\<open>restartDevice\<close> and
  \<^verbatim>\<open>factoryReset\<close>. The object's fields become a record that every operation takes
  and returns; the three nested loops become recursive functions; \<^verbatim>\<open>ESP.restart()\<close>,
  which never returns, becomes a separate outcome.
\<close>

subsection \<open>Strings of the Arduino core\<close>

text \<open>
  An Arduino \<^verbatim>\<open>String\<close> is a byte string. The source file is UTF-8, so every emoji and
  box-drawing character of a literal is the byte sequence written out below.
\<close>

definition CRLF :: string where
  "CRLF = [CHR 0x0D, CHR 0x0A]"

definition emoji_plug :: string where
  "emoji_plug = [CHR 0xF0, CHR 0x9F, CHR 0x94, CHR 0x8C]"

definition emoji_cross :: string where
  "emoji_cross = [CHR 0xE2, CHR 0x9D, CHR 0x8C]"

definition emoji_warning :: string where
  "emoji_warning = [CHR 0xE2, CHR 0x9A, CHR 0xA0, CHR 0xEF, CHR 0xB8, CHR 0x8F]"

definition emoji_envelope :: string where
  "emoji_envelope = [CHR 0xF0, CHR 0x9F, CHR 0x93, CHR 0xA8]"

definition emoji_arrows :: string where
  "emoji_arrows = [CHR 0xF0, CHR 0x9F, CHR 0x94, CHR 0x84]"

definition emoji_bin :: string where
  "emoji_bin = [CHR 0xF0, CHR 0x9F, CHR 0x97, CHR 0x91, CHR 0xEF, CHR 0xB8, CHR 0x8F]"

definition emoji_wave :: string where
  "emoji_wave = [CHR 0xF0, CHR 0x9F, CHR 0x91, CHR 0x8B]"

definition emoji_clock :: string where
  "emoji_clock = [CHR 0xE2, CHR 0x8F, CHR 0xB0]"

definition box_h :: string where
  "box_h = [CHR 0xE2, CHR 0x94, CHR 0x80]"

definition box_v :: string where
  "box_v = [CHR 0xE2, CHR 0x94, CHR 0x82]"

definition box_top :: string where
  "box_top = [CHR 0xE2, CHR 0x94, CHR 0x8C] @ concat (replicate 40 box_h)
     @ [CHR 0xE2, CHR 0x94, CHR 0x90]"

definition box_bottom :: string where
  "box_bottom = [CHR 0xE2, CHR 0x94, CHR 0x94] @ concat (replicate 40 box_h)
     @ [CHR 0xE2, CHR 0x94, CHR 0x98]"

text \<open>\<^verbatim>\<open>String(n)\<close> of an unsigned number: its decimal digits.\<close>

definition digit_char :: "nat \<Rightarrow> char" where
  "digit_char d = ''0123456789'' ! d"

function String_nat :: "nat \<Rightarrow> string" where
  "String_nat n =
     (if n < 10 then [digit_char n] else String_nat (n div 10) @ [digit_char (n mod 10)])"
  by pat_completeness auto

termination
  by (relation "measure id") auto

declare String_nat.simps [simp del]

definition String_int :: "int \<Rightarrow> string" where
  "String_int k = (if k < 0 then CHR ''-'' # String_nat (nat (- k)) else String_nat (nat k))"

text \<open>
  \<^verbatim>\<open>String::trim()\<close> removes the leading and the trailing bytes that C's \<^verbatim>\<open>isspace\<close>
  accepts: space, tab, line feed, vertical tab, form feed, carriage return.
\<close>

definition isspace :: "char \<Rightarrow> bool" where
  "isspace c = (c \<in> set [CHR 0x20, CHR 0x09, CHR 0x0A, CHR 0x0B, CHR 0x0C, CHR 0x0D])"

definition trim :: "string \<Rightarrow> string" where
  "trim s = rev (dropWhile isspace (rev (dropWhile isspace s)))"

text \<open>
  \<^verbatim>\<open>String::operator==(const char*)\<close> is \<^verbatim>\<open>String::equals\<close>, which compares with
  \<^verbatim>\<open>strcmp\<close>: each side is read up to its first NUL byte. A \<^verbatim>\<open>String\<close> filled by
  \<^verbatim>\<open>readStringUntil\<close> keeps the NUL bytes that the peer sent, so what the comparison
  sees of it is \<open>c_str\<close>.
\<close>

definition c_str :: "string \<Rightarrow> string" where
  "c_str s = takeWhile (\<lambda>c. c \<noteq> CHR 0x00) s"

definition String_equals :: "string \<Rightarrow> string \<Rightarrow> bool" where
  "String_equals s cstr = (c_str s = c_str cstr)"

subsection \<open>The data of the class\<close>

text \<open>
  \<^verbatim>\<open>WiFiClient\<close> belongs to the Arduino core, not to this repository. The model keeps what
  the telnet code observes of it: which connection it is (\<open>fd\<close>), whether
  \<^verbatim>\<open>connected()\<close> (and \<^verbatim>\<open>operator bool\<close>, which returns the same) holds, the bytes
  received and not yet read (\<^verbatim>\<open>available()\<close> is their number), and the peer's address as
  \<^verbatim>\<open>remoteIP().toString()\<close> prints it.
\<close>

record WiFiClient =
  fd :: nat
  sock_open :: bool
  rxbuf :: string
  remoteIP :: string

type_synonym millis_t = "32 word"

record TelnetClient =
  client :: WiFiClient
  connected :: bool
  lastActivity :: millis_t

text \<open>
  \<^verbatim>\<open>customParam4\<close> is a \<^verbatim>\<open>float\<close>; the telnet code only prints it, so the field holds
  the text \<^verbatim>\<open>String(customParam4)\<close>.
\<close>

record DeviceConfig =
  deviceName :: string
  theme :: string
  enableOTA :: bool
  enableTelnet :: bool
  telnetPort :: int
  updateInterval :: int
  customParam1 :: string
  customParam2 :: string
  customParam3 :: int
  customParam4 :: string

text \<open>
  What a transport's peer can observe, in the order it happens: bytes that
  \<^verbatim>\<open>print\<close> sent on a connection, and a connection closed by \<^verbatim>\<open>stop()\<close>.
\<close>

datatype wire_event = Sent nat string | Closed nat

text \<open>
  The custom command callback has the type \<^verbatim>\<open>void (*)(String, WiFiClient&)\<close>. Its body
  is the application's. The model lets it do, in any order, what the callback of the
  repository's example does: answer on the client it was handed, close that client, call
  the public \<^verbatim>\<open>broadcastTelnet\<close>, and call \<^verbatim>\<open>ESP.restart()\<close>, from which it does not
  return.
\<close>

datatype hook_action = HookPrint string | HookStop | HookBroadcast string | HookRestart

type_synonym telnet_hook = "string \<Rightarrow> WiFiClient \<Rightarrow> hook_action list"

definition MAX_TELNET_CLIENTS :: nat where
  "MAX_TELNET_CLIENTS = 3"

text \<open>
  The fields of \<^verbatim>\<open>ESP32S3_EasyConnect\<close> that the telnet code reads or writes.
  \<open>telnetClients\<close> is the array \<^verbatim>\<open>TelnetClient telnetClients[MAX_TELNET_CLIENTS]\<close>, read
  and written at the indices below \<open>MAX_TELNET_CLIENTS\<close> only; \<open>pending\<close> is the queue of
  connections that \<^verbatim>\<open>telnetServer\<close> has accepted and not yet handed out
  (\<^verbatim>\<open>hasClient()\<close> says it is not empty, \<^verbatim>\<open>available()\<close> takes its head); \<open>wire\<close>
  collects what the transports' peers observe.
\<close>

record server =
  config :: DeviceConfig
  deviceUptime :: millis_t
  telnetClients :: "nat \<Rightarrow> TelnetClient"
  telnetCommandCallback :: "telnet_hook option"
  pending :: "WiFiClient list"
  wire :: "wire_event list"

text \<open>
  The readings that the code takes from the platform during one call: \<^verbatim>\<open>millis()\<close>
  (an \<^verbatim>\<open>unsigned long\<close>, 32 bits on the ESP32, wrapping after about 49.7 days) and the
  figures of \<^verbatim>\<open>WiFi\<close> and \<^verbatim>\<open>ESP\<close> that the messages print. One call of
  \<^verbatim>\<open>handleTelnet\<close> is taken to read the same values throughout.
\<close>

record platform =
  millis :: millis_t
  localIP :: string
  ssid :: string
  rssi :: int
  macAddress :: string
  channel :: int
  freeHeap :: nat
  minFreeHeap :: nat
  maxAllocHeap :: nat
  psramSize :: nat
  freePsram :: nat

subsection \<open>The operations of \<^verbatim>\<open>WiFiClient\<close> and \<^verbatim>\<open>WiFiServer\<close>\<close>

text \<open>\<^verbatim>\<open>client.print(msg)\<close>: the bytes reach the peer when the connection is open.\<close>

definition client_print :: "WiFiClient \<Rightarrow> string \<Rightarrow> wire_event list \<Rightarrow> wire_event list" where
  "client_print c msg w = (if sock_open c then w @ [Sent (fd c) msg] else w)"

text \<open>
  \<^verbatim>\<open>client.stop()\<close>: closes the connection; afterwards \<^verbatim>\<open>connected()\<close> is false and
  \<^verbatim>\<open>available()\<close> is 0.
\<close>

definition client_stop :: "WiFiClient \<Rightarrow> WiFiClient" where
  "client_stop c = c\<lparr>sock_open := False, rxbuf := []\<rparr>"

definition stop_event :: "WiFiClient \<Rightarrow> wire_event list \<Rightarrow> wire_event list" where
  "stop_event c w = (if sock_open c then w @ [Closed (fd c)] else w)"

text \<open>
  \<^verbatim>\<open>Stream::readStringUntil(terminator)\<close>: reads up to and including the first
  terminator and returns what precedes it; when the bytes run out first (the read times
  out), it returns all of them. The second component is what stays unread.
\<close>

fun readStringUntil :: "char \<Rightarrow> string \<Rightarrow> string \<times> string" where
  "readStringUntil t [] = ([], [])"
| "readStringUntil t (c # cs) =
     (if c = t then ([], cs)
      else (case readStringUntil t cs of (r, rest) \<Rightarrow> (c # r, rest)))"

definition null_client :: WiFiClient where
  "null_client = \<lparr>fd = 0, sock_open = False, rxbuf = [], remoteIP = ''0.0.0.0''\<rparr>"

text \<open>\<^verbatim>\<open>telnetServer.available()\<close>: the next accepted connection, or an unconnected client.\<close>

definition server_available :: "server \<Rightarrow> WiFiClient \<times> server" where
  "server_available s =
     (case pending s of
        [] \<Rightarrow> (null_client, s)
      | c # cs \<Rightarrow> (c, s\<lparr>pending := cs\<rparr>))"

definition hasClient :: "server \<Rightarrow> bool" where
  "hasClient s = (pending s \<noteq> [])"

text \<open>
  The bytes that connection \<open>k\<close> has been sent, in order, and \<^verbatim>\<open>String::endsWith\<close>.
\<close>

fun sent_to :: "nat \<Rightarrow> wire_event list \<Rightarrow> string" where
  "sent_to k [] = []"
| "sent_to k (Sent f m # es) = (if f = k then m @ sent_to k es else sent_to k es)"
| "sent_to k (Closed f # es) = sent_to k es"

definition endsWith :: "string \<Rightarrow> string \<Rightarrow> bool" where
  "endsWith s suffix = (length suffix \<le> length s \<and> drop (length s - length suffix) s = suffix)"

subsection \<open>Writing to and closing the transport of a slot\<close>

definition slot_print :: "nat \<Rightarrow> string \<Rightarrow> server \<Rightarrow> server" where
  "slot_print i msg s = s\<lparr>wire := client_print (client (telnetClients s i)) msg (wire s)\<rparr>"

definition slot_stop :: "nat \<Rightarrow> server \<Rightarrow> server" where
  "slot_stop i s =
     s\<lparr>telnetClients := (telnetClients s)
          (i := (telnetClients s i)\<lparr>client := client_stop (client (telnetClients s i))\<rparr>),
       wire := stop_event (client (telnetClients s i)) (wire s)\<rparr>"

definition set_connected :: "nat \<Rightarrow> bool \<Rightarrow> server \<Rightarrow> server" where
  "set_connected i b s =
     s\<lparr>telnetClients := (telnetClients s)(i := (telnetClients s i)\<lparr>connected := b\<rparr>)\<rparr>"

definition set_lastActivity :: "nat \<Rightarrow> millis_t \<Rightarrow> server \<Rightarrow> server" where
  "set_lastActivity i t s =
     s\<lparr>telnetClients := (telnetClients s)(i := (telnetClients s i)\<lparr>lastActivity := t\<rparr>)\<rparr>"

text \<open>The test \<^verbatim>\<open>telnetClients[i].connected && telnetClients[i].client.connected()\<close>.\<close>

definition slot_live :: "server \<Rightarrow> nat \<Rightarrow> bool" where
  "slot_live s i = (connected (telnetClients s i) \<and> sock_open (client (telnetClients s i)))"

subsection \<open>The fixed notices and log lines\<close>

definition shutdown_notice :: string where
  "shutdown_notice = emoji_plug @ '' Server shutting down for maintenance. Goodbye!'' @ CRLF"

definition connected_log :: string where
  "connected_log = emoji_plug @ '' Telnet client connected from: ''"

definition rejected_log :: string where
  "rejected_log = emoji_warning @ '' Telnet connection rejected - maximum clients reached''"

definition command_log :: string where
  "command_log = emoji_envelope @ '' Telnet command from ''"

definition restart_notice :: string where
  "restart_notice = emoji_arrows @ '' Restarting device...'' @ CRLF"

definition restart_log :: string where
  "restart_log = emoji_arrows @ '' Restarting device...''"

definition factory_notice :: string where
  "factory_notice = emoji_bin @ '' Factory reset...'' @ CRLF"

definition factory_log :: string where
  "factory_log = emoji_bin @ '' Performing factory reset...''"

definition disconnect_notice :: string where
  "disconnect_notice = emoji_wave @ '' Disconnecting...'' @ CRLF"

definition timeout_log :: string where
  "timeout_log = emoji_clock @ '' Telnet client timeout: ''"

definition timeout_notice :: string where
  "timeout_notice = emoji_clock @ '' Connection timeout. Goodbye!'' @ CRLF"

definition gone_log :: string where
  "gone_log = emoji_plug @ '' Telnet client disconnected: ''"

subsection \<open>\<^verbatim>\<open>broadcastTelnet\<close>, \<^verbatim>\<open>sendToTelnet\<close> and the log\<close>

definition broadcastTelnet :: "string \<Rightarrow> server \<Rightarrow> server" where
  "broadcastTelnet message s =
     (if \<not> enableTelnet (config s) then s
      else foldl (\<lambda>s i. if slot_live s i then slot_print i message s else s)
             s [0..<MAX_TELNET_CLIENTS])"

definition sendToTelnet :: "string \<Rightarrow> server \<Rightarrow> server" where
  "sendToTelnet message s =
     (if \<not> enableTelnet (config s) then s else broadcastTelnet message s)"

text \<open>
  \<^verbatim>\<open>log\<close> and \<^verbatim>\<open>logln\<close> also print to \<^verbatim>\<open>Serial\<close>, which is no part of the telnet
  state and is left out.
\<close>

definition log_msg :: "string \<Rightarrow> server \<Rightarrow> server" where
  "log_msg message s = sendToTelnet message s"

definition logln :: "string \<Rightarrow> server \<Rightarrow> server" where
  "logln message s = sendToTelnet (message @ CRLF) s"

text \<open>
  What one pass of the loop of \<^verbatim>\<open>broadcastTelnet\<close> over the slots \<open>is\<close> sends: the message, once
  for each slot that is marked connected and has an open transport, in the order of the
  indices; and what \<^verbatim>\<open>sendToTelnet\<close>, hence every log line, sends.
\<close>

definition broadcast_events :: "string \<Rightarrow> server \<Rightarrow> nat list \<Rightarrow> wire_event list" where
  "broadcast_events message s is =
     map (\<lambda>i. Sent (fd (client (telnetClients s i))) message) (filter (slot_live s) is)"

definition telnet_events :: "string \<Rightarrow> server \<Rightarrow> wire_event list" where
  "telnet_events message s =
     (if enableTelnet (config s) then broadcast_events message s [0..<MAX_TELNET_CLIENTS] else [])"

definition getTelnetClientCount :: "server \<Rightarrow> nat" where
  "getTelnetClientCount s =
     foldl (\<lambda>count i. if slot_live s i then count + 1 else count) 0 [0..<MAX_TELNET_CLIENTS]"

definition disconnectTelnetClients :: "server \<Rightarrow> server" where
  "disconnectTelnetClients s =
     foldl (\<lambda>s i.
        if connected (telnetClients s i)
        then set_connected i False
               (slot_stop i
                 (slot_print i shutdown_notice s))
        else s)
       s [0..<MAX_TELNET_CLIENTS]"

subsection \<open>The texts that \<^verbatim>\<open>handleTelnet\<close> builds\<close>

definition PROMPT :: string where
  "PROMPT = ''> ''"

definition welcome_message :: "platform \<Rightarrow> server \<Rightarrow> string" where
  "welcome_message p s =
     CRLF
     @ box_top @ CRLF
     @ box_v @ ''       ESP32-S3 EasyConnect Telnet     '' @ box_v @ CRLF
     @ box_v @ ''              Framework v1.2.0         '' @ box_v @ CRLF
     @ box_bottom @ CRLF
     @ ''Device: '' @ deviceName (config s) @ CRLF
     @ ''IP: '' @ localIP p @ CRLF
     @ ''Free Heap: '' @ String_nat (freeHeap p) @ '' bytes'' @ CRLF
     @ ''Uptime: '' @ String_nat (unat (deviceUptime s div 1000)) @ ''s'' @ CRLF
     @ ''Connected clients: '' @ String_nat (getTelnetClientCount s) @ ''/''
         @ String_nat MAX_TELNET_CLIENTS @ CRLF
     @ ''Type 'help' for available commands'' @ CRLF
     @ ''----------------------------------------'' @ CRLF
     @ PROMPT"

definition reject_message :: string where
  "reject_message =
     emoji_cross @ '' Maximum telnet clients reached ('' @ String_nat MAX_TELNET_CLIENTS
       @ ''). Try again later.'' @ CRLF"

definition help_message :: string where
  "help_message =
     ''Available commands:'' @ CRLF
     @ ''  help, ?       - Show this help'' @ CRLF
     @ ''  status        - Show device status'' @ CRLF
     @ ''  restart       - Restart device'' @ CRLF
     @ ''  factoryreset  - Factory reset'' @ CRLF
     @ ''  clients       - Show connected clients'' @ CRLF
     @ ''  wifi          - Show WiFi info'' @ CRLF
     @ ''  memory        - Show memory usage'' @ CRLF
     @ ''  config        - Show current configuration'' @ CRLF
     @ ''  clear, cls    - Clear screen'' @ CRLF
     @ ''  disconnect    - Disconnect this session'' @ CRLF
     @ ''Custom commands can be added via callback'' @ CRLF
     @ PROMPT"

definition status_message :: "platform \<Rightarrow> server \<Rightarrow> string" where
  "status_message p s =
     ''Device Status:'' @ CRLF
     @ ''  Name: '' @ deviceName (config s) @ CRLF
     @ ''  Uptime: '' @ String_nat (unat (deviceUptime s div 1000)) @ ''s'' @ CRLF
     @ ''  Free Heap: '' @ String_nat (freeHeap p) @ '' bytes'' @ CRLF
     @ ''  WiFi: '' @ ssid p @ '' ('' @ String_int (rssi p) @ '' dBm)'' @ CRLF
     @ ''  IP: '' @ localIP p @ CRLF
     @ ''  Telnet clients: '' @ String_nat (getTelnetClientCount s) @ ''/''
         @ String_nat MAX_TELNET_CLIENTS @ CRLF
     @ PROMPT"

definition clients_entry :: "platform \<Rightarrow> server \<Rightarrow> nat \<Rightarrow> string" where
  "clients_entry p s j =
     ''  '' @ String_nat (j + 1) @ ''. '' @ remoteIP (client (telnetClients s j))
     @ '' (active '' @ String_nat (unat ((millis p - lastActivity (telnetClients s j)) div 1000))
     @ ''s ago)'' @ CRLF"

definition clients_message :: "platform \<Rightarrow> server \<Rightarrow> string" where
  "clients_message p s =
     foldl (\<lambda>clients j. if slot_live s j then clients @ clients_entry p s j else clients)
       (''Connected Telnet Clients:'' @ CRLF) [0..<MAX_TELNET_CLIENTS]
     @ PROMPT"

definition wifi_message :: "platform \<Rightarrow> string" where
  "wifi_message p =
     ''WiFi Information:'' @ CRLF
     @ ''  SSID: '' @ ssid p @ CRLF
     @ ''  IP: '' @ localIP p @ CRLF
     @ ''  MAC: '' @ macAddress p @ CRLF
     @ ''  RSSI: '' @ String_int (rssi p) @ '' dBm'' @ CRLF
     @ ''  Channel: '' @ String_int (channel p) @ CRLF
     @ PROMPT"

definition memory_message :: "platform \<Rightarrow> string" where
  "memory_message p =
     ''Memory Information:'' @ CRLF
     @ ''  Free Heap: '' @ String_nat (freeHeap p) @ '' bytes'' @ CRLF
     @ ''  Min Free Heap: '' @ String_nat (minFreeHeap p) @ '' bytes'' @ CRLF
     @ ''  Max Alloc Heap: '' @ String_nat (maxAllocHeap p) @ '' bytes'' @ CRLF
     @ ''  PSRAM Size: '' @ String_nat (psramSize p) @ '' bytes'' @ CRLF
     @ ''  Free PSRAM: '' @ String_nat (freePsram p) @ '' bytes'' @ CRLF
     @ PROMPT"

definition config_message :: "server \<Rightarrow> string" where
  "config_message s =
     ''Current Configuration:'' @ CRLF
     @ ''  Device Name: '' @ deviceName (config s) @ CRLF
     @ ''  Theme: '' @ theme (config s) @ CRLF
     @ ''  OTA Enabled: '' @ (if enableOTA (config s) then ''Yes'' else ''No'') @ CRLF
     @ ''  Telnet Enabled: '' @ (if enableTelnet (config s) then ''Yes'' else ''No'') @ CRLF
     @ ''  Update Interval: '' @ String_int (updateInterval (config s)) @ ''ms'' @ CRLF
     @ ''  Custom1: '' @ customParam1 (config s) @ CRLF
     @ ''  Custom2: '' @ customParam2 (config s) @ CRLF
     @ ''  Custom3: '' @ String_int (customParam3 (config s)) @ CRLF
     @ ''  Custom4: '' @ customParam4 (config s) @ CRLF
     @ PROMPT"

definition clear_screen :: string where
  "clear_screen = [CHR 0x1B] @ ''[2J'' @ [CHR 0x1B] @ ''[H''"

definition unknown_message :: string where
  "unknown_message =
     emoji_cross @ '' Unknown command. Type 'help' for available commands.'' @ CRLF @ PROMPT"

subsection \<open>Restart and factory reset\<close>

text \<open>
  \<^verbatim>\<open>ESP.restart()\<close> does not return: the call of \<^verbatim>\<open>handleTelnet\<close> ends there, with the
  state the device had when it restarted.
\<close>

datatype outcome = Restarted server | Running server

fun final :: "outcome \<Rightarrow> server" where
  "final (Restarted s) = s"
| "final (Running s) = s"

definition restartDevice :: "server \<Rightarrow> outcome" where
  "restartDevice s = Restarted (logln restart_log s)"

text \<open>
  \<^verbatim>\<open>factoryReset\<close> also clears the WiFi credentials and removes the configuration file;
  both lie outside the telnet state.
\<close>

definition factoryReset :: "server \<Rightarrow> outcome" where
  "factoryReset s =
     Restarted (disconnectTelnetClients (logln factory_log s))"

subsection \<open>\<^verbatim>\<open>handleTelnet\<close>: new connections\<close>

definition store_client :: "nat \<Rightarrow> WiFiClient \<Rightarrow> server \<Rightarrow> server" where
  "store_client i c s =
     s\<lparr>telnetClients := (telnetClients s)(i := (telnetClients s i)\<lparr>client := c\<rparr>)\<rparr>"

text \<open>The body of the \<^verbatim>\<open>if (!telnetClients[i].connected)\<close> of the accepting loop.\<close>

definition admit_at :: "platform \<Rightarrow> nat \<Rightarrow> server \<Rightarrow> server" where
  "admit_at p i s =
     (let s1 = (if sock_open (client (telnetClients s i)) then slot_stop i s else s);
          (c, s2) = server_available s1;
          s3 = store_client i c s2;
          s4 = set_connected i True s3;
          s5 = set_lastActivity i (millis p) s4;
          s6 = slot_print i (welcome_message p s5) s5;
          s7 = log_msg connected_log s6
      in logln (remoteIP (client (telnetClients s7 i))) s7)"

text \<open>
  The accepting loop over the slot indices, left by \<^verbatim>\<open>break\<close> at the first slot that is
  not connected; the flag is \<^verbatim>\<open>connectionAccepted\<close>.
\<close>

fun admit_scan :: "platform \<Rightarrow> nat list \<Rightarrow> server \<Rightarrow> server \<times> bool" where
  "admit_scan p [] s = (s, False)"
| "admit_scan p (i # is) s =
     (if \<not> connected (telnetClients s i) then (admit_at p i s, True)
      else admit_scan p is s)"

text \<open>The body of \<^verbatim>\<open>if (!connectionAccepted)\<close>: the local client is printed to and stopped.\<close>

definition reject_pending :: "server \<Rightarrow> server" where
  "reject_pending s =
     (let (c, s1) = server_available s;
          s2 = s1\<lparr>wire := client_print c reject_message (wire s1)\<rparr>;
          s3 = s2\<lparr>wire := stop_event c (wire s2)\<rparr>
      in logln rejected_log s3)"

definition accept_pending :: "platform \<Rightarrow> server \<Rightarrow> server" where
  "accept_pending p s =
     (if hasClient s then
        (case admit_scan p [0..<MAX_TELNET_CLIENTS] s of
           (s', connectionAccepted) \<Rightarrow>
             if \<not> connectionAccepted then reject_pending s' else s')
      else s)"

subsection \<open>\<^verbatim>\<open>handleTelnet\<close>: commands\<close>

fun run_hook :: "nat \<Rightarrow> hook_action list \<Rightarrow> server \<Rightarrow> outcome" where
  "run_hook i [] s = Running s"
| "run_hook i (HookPrint m # as) s = run_hook i as (slot_print i m s)"
| "run_hook i (HookStop # as) s = run_hook i as (slot_stop i s)"
| "run_hook i (HookBroadcast m # as) s = run_hook i as (broadcastTelnet m s)"
| "run_hook i (HookRestart # as) s = Restarted s"

text \<open>
  The chain of comparisons on \<^verbatim>\<open>command\<close>, each a \<^verbatim>\<open>String::operator==\<close> with a
  literal. The callback is handed the whole \<^verbatim>\<open>String\<close>.
\<close>

definition dispatch :: "platform \<Rightarrow> nat \<Rightarrow> string \<Rightarrow> server \<Rightarrow> outcome" where
  "dispatch p i command s =
     (if String_equals command ''help'' \<or> String_equals command ''?'' then
        Running (slot_print i help_message s)
      else if String_equals command ''status'' then
        Running (slot_print i (status_message p s) s)
      else if String_equals command ''restart'' then
        restartDevice (slot_print i restart_notice s)
      else if String_equals command ''factoryreset'' then
        factoryReset (slot_print i factory_notice s)
      else if String_equals command ''clients'' then
        Running (slot_print i (clients_message p s) s)
      else if String_equals command ''wifi'' then
        Running (slot_print i (wifi_message p) s)
      else if String_equals command ''memory'' then
        Running (slot_print i (memory_message p) s)
      else if String_equals command ''config'' then
        Running (slot_print i (config_message s) s)
      else if String_equals command ''clear'' \<or> String_equals command ''cls'' then
        Running (slot_print i PROMPT (slot_print i clear_screen s))
      else if String_equals command ''disconnect'' then
        Running (set_connected i False
                  (slot_stop i (slot_print i disconnect_notice s)))
      else
        (case telnetCommandCallback s of
           Some callback \<Rightarrow> run_hook i (callback command (client (telnetClients s i))) s
         | None \<Rightarrow> Running (slot_print i unknown_message s)))"

text \<open>
  The literals that the chain compares with, and those among them whose branch prints a
  prompt. A command takes a built-in branch when its \<open>c_str\<close> is one of the former.
\<close>

definition builtin_commands :: "string list" where
  "builtin_commands =
     [''help'', ''?'', ''status'', ''restart'', ''factoryreset'', ''clients'', ''wifi'',
      ''memory'', ''config'', ''clear'', ''cls'', ''disconnect'']"

definition prompt_commands :: "string list" where
  "prompt_commands =
     [''help'', ''?'', ''status'', ''clients'', ''wifi'', ''memory'', ''config'', ''clear'', ''cls'']"

text \<open>The body of \<^verbatim>\<open>if (command.length() > 0)\<close>.\<close>

definition handle_command :: "platform \<Rightarrow> nat \<Rightarrow> string \<Rightarrow> server \<Rightarrow> outcome" where
  "handle_command p i command s =
     (let s1 = set_lastActivity i (millis p) s;
          s2 = log_msg command_log s1;
          s3 = log_msg (remoteIP (client (telnetClients s2 i))) s2;
          s4 = log_msg '': '' s3;
          s5 = logln command s4
      in dispatch p i command s5)"

subsection \<open>\<^verbatim>\<open>handleTelnet\<close>: the reading loop\<close>

text \<open>Reading from \<^verbatim>\<open>telnetClients[i].client\<close> leaves the unread bytes behind.\<close>

definition set_rxbuf :: "nat \<Rightarrow> string \<Rightarrow> server \<Rightarrow> server" where
  "set_rxbuf i rest s =
     s\<lparr>telnetClients := (telnetClients s)
          (i := (telnetClients s i)\<lparr>client := (client (telnetClients s i))\<lparr>rxbuf := rest\<rparr>\<rparr>)\<rparr>"

text \<open>
  The loop \<^verbatim>\<open>while (telnetClients[i].client.available())\<close> ends because every read
  takes at least one byte and nothing that handles a command adds unread bytes. The facts
  below establish that; \<open>rx_len\<close> is the measure.
\<close>

lemma slot_ids: "[0..<MAX_TELNET_CLIENTS] = [0, 1, 2]"
  by (simp add: MAX_TELNET_CLIENTS_def upt_rec)

lemma slot_live_wire [simp]: "slot_live (s\<lparr>wire := w\<rparr>) = slot_live s"
  by (simp add: slot_live_def fun_eq_iff)

lemma broadcast_fold:
  "foldl (\<lambda>s i. if slot_live s i then slot_print i message s else s) s is
     = s\<lparr>wire := wire s @ broadcast_events message s is\<rparr>"
proof (induction "is" arbitrary: s)
  case Nil
  show ?case by (simp add: broadcast_events_def)
next
  case (Cons i "is")
  show ?case
  proof (cases "slot_live s i")
    case True
    then have "sock_open (client (telnetClients s i))" by (simp add: slot_live_def)
    with True show ?thesis
      by (simp add: Cons.IH slot_print_def client_print_def broadcast_events_def)
  next
    case False
    then show ?thesis by (simp add: Cons.IH broadcast_events_def)
  qed
qed

lemma broadcastTelnet_eq:
  "broadcastTelnet message s =
     (if enableTelnet (config s)
      then s\<lparr>wire := wire s @ broadcast_events message s [0..<MAX_TELNET_CLIENTS]\<rparr>
      else s)"
  by (simp add: broadcastTelnet_def broadcast_fold)

lemma readStringUntil_shorter:
  "readStringUntil t xs = (r, rest) \<Longrightarrow> xs \<noteq> [] \<Longrightarrow> length rest < length xs"
proof (induction xs arbitrary: r rest)
  case Nil
  then show ?case by simp
next
  case (Cons c cs)
  show ?case
  proof (cases "c = t")
    case True
    with Cons.prems show ?thesis by simp
  next
    case False
    obtain r' rest' where rd: "readStringUntil t cs = (r', rest')"
      by (cases "readStringUntil t cs")
    with False Cons.prems have "rest = rest'" by simp
    moreover have "length rest' \<le> length cs"
    proof (cases cs)
      case Nil
      with rd show ?thesis by simp
    next
      case (Cons a as)
      with Cons.IH[OF rd] show ?thesis by simp
    qed
    ultimately show ?thesis by simp
  qed
qed

lemma sendToTelnet_eq: "sendToTelnet message s = s\<lparr>wire := wire s @ telnet_events message s\<rparr>"
  by (simp add: sendToTelnet_def broadcastTelnet_eq telnet_events_def)

lemma log_msg_eq: "log_msg message s = s\<lparr>wire := wire s @ telnet_events message s\<rparr>"
  by (simp add: log_msg_def sendToTelnet_eq)

lemma logln_eq: "logln message s = s\<lparr>wire := wire s @ telnet_events (message @ CRLF) s\<rparr>"
  by (simp add: logln_def sendToTelnet_eq)

definition rx_len :: "server \<Rightarrow> nat \<Rightarrow> nat" where
  "rx_len s i = length (rxbuf (client (telnetClients s i)))"

lemma rx_len_wire [simp]: "rx_len (s\<lparr>wire := w\<rparr>) i = rx_len s i"
  by (simp add: rx_len_def)

lemma rx_len_slot_print [simp]: "rx_len (slot_print j m s) i = rx_len s i"
  by (simp add: slot_print_def)

lemma rx_len_broadcastTelnet [simp]: "rx_len (broadcastTelnet m s) i = rx_len s i"
  by (simp add: broadcastTelnet_eq)

lemma rx_len_log_msg [simp]: "rx_len (log_msg m s) i = rx_len s i"
  by (simp add: log_msg_eq)

lemma rx_len_logln [simp]: "rx_len (logln m s) i = rx_len s i"
  by (simp add: logln_eq)

lemma rx_len_set_connected [simp]: "rx_len (set_connected j b s) i = rx_len s i"
  by (simp add: rx_len_def set_connected_def)

lemma rx_len_set_lastActivity [simp]: "rx_len (set_lastActivity j t s) i = rx_len s i"
  by (simp add: rx_len_def set_lastActivity_def)

lemma rx_len_slot_stop: "rx_len (slot_stop j s) i \<le> rx_len s i"
  by (simp add: rx_len_def slot_stop_def client_stop_def)

lemma rx_len_run_hook: "rx_len (final (run_hook j as s)) i \<le> rx_len s i"
proof (induction j as s rule: run_hook.induct)
  case (3 j as s)
  then show ?case using rx_len_slot_stop [of j s i] by simp
qed simp_all

lemma rx_len_run_hook_Running:
  "run_hook j as s = Running s' \<Longrightarrow> rx_len s' i \<le> rx_len s i"
  using rx_len_run_hook [of j as s i] by simp

lemma dispatch_cases:
  assumes "P (Running (slot_print i help_message s))"
    and "P (Running (slot_print i (status_message p s) s))"
    and "P (restartDevice (slot_print i restart_notice s))"
    and "P (factoryReset (slot_print i factory_notice s))"
    and "P (Running (slot_print i (clients_message p s) s))"
    and "P (Running (slot_print i (wifi_message p) s))"
    and "P (Running (slot_print i (memory_message p) s))"
    and "P (Running (slot_print i (config_message s) s))"
    and "P (Running (slot_print i PROMPT (slot_print i clear_screen s)))"
    and "P (Running (set_connected i False
                  (slot_stop i (slot_print i disconnect_notice s))))"
    and "\<And>callback. telnetCommandCallback s = Some callback \<Longrightarrow>
           P (run_hook i (callback command (client (telnetClients s i))) s)"
    and "telnetCommandCallback s = None \<Longrightarrow> P (Running (slot_print i unknown_message s))"
  shows "P (dispatch p i command s)"
  unfolding dispatch_def using assms by (simp split: option.split)

lemma rx_len_dispatch:
  "dispatch p j command s = Running s' \<Longrightarrow> rx_len s' i \<le> rx_len s i"
proof -
  have "case dispatch p j command s of Running s' \<Rightarrow> rx_len s' i \<le> rx_len s i | Restarted _ \<Rightarrow> True"
  proof (rule dispatch_cases)
    show "case Running (set_connected j False
                  (slot_stop j (slot_print j disconnect_notice s))) of
            Running s' \<Rightarrow> rx_len s' i \<le> rx_len s i | Restarted _ \<Rightarrow> True"
      using rx_len_slot_stop [of j "slot_print j disconnect_notice s" i]
      by simp
  next
    fix callback
    show "case run_hook j (callback command (client (telnetClients s j))) s of
            Running s' \<Rightarrow> rx_len s' i \<le> rx_len s i | Restarted _ \<Rightarrow> True"
      by (simp add: rx_len_run_hook_Running split: outcome.split)
  qed (simp_all add: restartDevice_def factoryReset_def)
  then show "dispatch p j command s = Running s' \<Longrightarrow> rx_len s' i \<le> rx_len s i"
    by simp
qed

lemma rx_len_handle_command:
  "handle_command p j command s = Running s' \<Longrightarrow> rx_len s' i \<le> rx_len s i"
  using rx_len_dispatch [of p j command _ s' i]
  by (fastforce simp: handle_command_def Let_def)

lemma rx_len_set_rxbuf [simp]: "rx_len (set_rxbuf i rest s) i = length rest"
  by (simp add: rx_len_def set_rxbuf_def)

function drain :: "platform \<Rightarrow> nat \<Rightarrow> server \<Rightarrow> outcome" where
  "drain p i s =
     (if rxbuf (client (telnetClients s i)) = [] then Running s
      else
        (case readStringUntil (CHR 0x0A) (rxbuf (client (telnetClients s i))) of
           (line, rest) \<Rightarrow>
             let s1 = set_rxbuf i rest s;
                 command = trim line
             in if command \<noteq> [] then
                  (case handle_command p i command s1 of
                     Restarted s' \<Rightarrow> Restarted s'
                   | Running s' \<Rightarrow> drain p i s')
                else drain p i s1))"
  by pat_completeness auto

termination
proof (relation "measure (\<lambda>(p, i, s). rx_len s i)")
  show "wf (measure (\<lambda>(p, i, s). rx_len s i))" by simp
next
  fix p i s line rest s1 command s'
  assume ne: "rxbuf (client (telnetClients s i)) \<noteq> []"
    and rd: "(line, rest) = readStringUntil (CHR 0x0A) (rxbuf (client (telnetClients s i)))"
    and s1: "s1 = set_rxbuf i rest s"
    and hc: "handle_command p i command s1 = Running s'"
  have "length rest < rx_len s i"
    using readStringUntil_shorter [OF rd [symmetric] ne] by (simp add: rx_len_def)
  with rx_len_handle_command [OF hc, of i] s1
  show "((p, i, s'), p, i, s) \<in> measure (\<lambda>(p, i, s). rx_len s i)" by simp
next
  fix p i s line rest s1
  assume ne: "rxbuf (client (telnetClients s i)) \<noteq> []"
    and rd: "(line, rest) = readStringUntil (CHR 0x0A) (rxbuf (client (telnetClients s i)))"
    and s1: "s1 = set_rxbuf i rest s"
  have "length rest < rx_len s i"
    using readStringUntil_shorter [OF rd [symmetric] ne] by (simp add: rx_len_def)
  with s1 show "((p, i, s1), p, i, s) \<in> measure (\<lambda>(p, i, s). rx_len s i)" by simp
qed

declare drain.simps [simp del]

subsection \<open>\<^verbatim>\<open>handleTelnet\<close>: timeout, lost connections and the whole call\<close>

text \<open>The check \<^verbatim>\<open>millis() - telnetClients[i].lastActivity > 600000\<close>, in unsigned 32-bit arithmetic.\<close>

definition check_timeout :: "platform \<Rightarrow> nat \<Rightarrow> server \<Rightarrow> server" where
  "check_timeout p i s =
     (if millis p - lastActivity (telnetClients s i) > 600000 then
        (let s1 = log_msg timeout_log s;
             s2 = logln (remoteIP (client (telnetClients s1 i))) s1;
             s3 = slot_print i timeout_notice s2;
             s4 = slot_stop i s3
         in set_connected i False s4)
      else s)"

text \<open>The \<^verbatim>\<open>else\<close> branch of the serving loop: the client has gone.\<close>

definition client_gone :: "nat \<Rightarrow> server \<Rightarrow> server" where
  "client_gone i s =
     (if connected (telnetClients s i) then
        (let s1 = log_msg gone_log s;
             s2 = logln (remoteIP (client (telnetClients s1 i))) s1
         in set_connected i False s2)
      else s)"

text \<open>One round of the loop \<^verbatim>\<open>for (int i = 0; i < MAX_TELNET_CLIENTS; i++)\<close> that serves the clients.\<close>

definition serve_slot :: "platform \<Rightarrow> nat \<Rightarrow> server \<Rightarrow> outcome" where
  "serve_slot p i s =
     (if slot_live s i then
        (case drain p i s of
           Restarted s' \<Rightarrow> Restarted s'
         | Running s' \<Rightarrow> Running (check_timeout p i s'))
      else Running (client_gone i s))"

fun serve_slots :: "platform \<Rightarrow> nat list \<Rightarrow> server \<Rightarrow> outcome" where
  "serve_slots p [] s = Running s"
| "serve_slots p (i # is) s =
     (case serve_slot p i s of
        Restarted s' \<Rightarrow> Restarted s'
      | Running s' \<Rightarrow> serve_slots p is s')"

definition handleTelnet :: "platform \<Rightarrow> server \<Rightarrow> outcome" where
  "handleTelnet p s = serve_slots p [0..<MAX_TELNET_CLIENTS] (accept_pending p s)"

subsection \<open>The constructor and some concrete states\<close>

text \<open>The state that the constructor \<^verbatim>\<open>ESP32S3_EasyConnect()\<close> leaves.\<close>

definition default_config :: DeviceConfig where
  "default_config =
     \<lparr>deviceName = ''ESP32-S3-Device'', theme = ''dark'', enableOTA = True,
      enableTelnet = True, telnetPort = 23, updateInterval = 5000,
      customParam1 = [], customParam2 = [], customParam3 = 0, customParam4 = ''0.00''\<rparr>"

definition free_slot :: TelnetClient where
  "free_slot = \<lparr>client = null_client, connected = False, lastActivity = 0\<rparr>"

definition initial_server :: server where
  "initial_server =
     \<lparr>config = default_config, deviceUptime = 0, telnetClients = (\<lambda>i. free_slot),
      telnetCommandCallback = None, pending = [], wire = []\<rparr>"

text \<open>A peer with an open connection and nothing sent yet, and a slot that holds it.\<close>

definition peer :: "nat \<Rightarrow> WiFiClient" where
  "peer k = \<lparr>fd = k, sock_open = True, rxbuf = [], remoteIP = ''10.0.0.'' @ String_nat k\<rparr>"

definition held :: "nat \<Rightarrow> millis_t \<Rightarrow> TelnetClient" where
  "held k t = \<lparr>client = peer k, connected = True, lastActivity = t\<rparr>"

definition three_clients :: server where
  "three_clients =
     initial_server\<lparr>telnetClients := (\<lambda>i. if i < 3 then held (i + 1) 1000 else free_slot)\<rparr>"

definition bench :: platform where
  "bench =
     \<lparr>millis = 5000, localIP = ''192.168.4.20'', ssid = ''lab'', rssi = - 61,
      macAddress = ''24:6F:28:00:00:01'', channel = 6, freeHeap = 212344,
      minFreeHeap = 180000, maxAllocHeap = 110000, psramSize = 8388608, freePsram = 8300000\<rparr>"

text \<open>One client, a second slot that is free but still holds an open transport, two connections waiting.\<close>

definition stale_server :: server where
  "stale_server =
     initial_server\<lparr>telnetClients :=
         (\<lambda>i. if i = 0 then held 1 1000
              else if i = 1 then \<lparr>client = peer 2, connected = False, lastActivity = 1000\<rparr>
              else free_slot),
       pending := [peer 7, peer 8]\<rparr>"



text \<open>Bytes arriving from the peer of slot \<open>i\<close> between two calls.\<close>

definition receive :: "nat \<Rightarrow> string \<Rightarrow> server \<Rightarrow> server" where
  "receive i bytes s = set_rxbuf i (rxbuf (client (telnetClients s i)) @ bytes) s"

text \<open>
  One client in slot 0, last active at \<open>t\<close>; three clients with the telnet flag off; three
  clients of which the second has lost its connection.
\<close>

definition idle_since :: "millis_t \<Rightarrow> server" where
  "idle_since t = initial_server\<lparr>telnetClients := (\<lambda>i. if i = 0 then held 1 t else free_slot)\<rparr>"

definition muted_clients :: server where
  "muted_clients = three_clients\<lparr>config := default_config\<lparr>enableTelnet := False\<rparr>\<rparr>"

definition two_of_three :: server where
  "two_of_three =
     three_clients\<lparr>telnetClients := (telnetClients three_clients)
       (1 := \<lparr>client = client_stop (peer 2), connected = True, lastActivity = 1000\<rparr>)\<rparr>"

subsection \<open>Notions used in the statements and proofs\<close>

text \<open>The fields that \<^verbatim>\<open>handleTelnet\<close> never writes, with and without the queue.\<close>

definition static :: "server \<Rightarrow> DeviceConfig \<times> millis_t \<times> telnet_hook option \<times> WiFiClient list" where
  "static s = (config s, deviceUptime s, telnetCommandCallback s, pending s)"

definition settings :: "server \<Rightarrow> DeviceConfig \<times> millis_t \<times> telnet_hook option" where
  "settings s = (config s, deviceUptime s, telnetCommandCallback s)"

text \<open>The state after \<open>c\<close> has been stored in slot \<open>i\<close>, before anything is printed.\<close>

definition admitted :: "platform \<Rightarrow> nat \<Rightarrow> WiFiClient \<Rightarrow> server \<Rightarrow> server" where
  "admitted p i c s =
     s\<lparr>telnetClients := (telnetClients s)
          (i := \<lparr>client = c, connected = True, lastActivity = millis p\<rparr>),
       pending := tl (pending s)\<rparr>"

text \<open>One round of the loop of \<^verbatim>\<open>disconnectTelnetClients\<close>.\<close>

definition shut_slot :: "server \<Rightarrow> nat \<Rightarrow> server" where
  "shut_slot s i =
     (if connected (telnetClients s i)
      then set_connected i False (slot_stop i (slot_print i shutdown_notice s))
      else s)"

text \<open>
  Between two states, every slot's \<open>lastActivity\<close> is what it was or the current
  \<^verbatim>\<open>millis()\<close>.
\<close>

definition stamped :: "platform \<Rightarrow> server \<Rightarrow> server \<Rightarrow> bool" where
  "stamped p a b =
     (\<forall>j. lastActivity (telnetClients b j) = lastActivity (telnetClients a j)
          \<or> lastActivity (telnetClients b j) = millis p)"

section \<open>Properties\<close>

subsection \<open>Auxiliary facts\<close>

lemma slot_live_pending [simp]: "slot_live (s\<lparr>pending := q\<rparr>) = slot_live s"
  by (simp add: slot_live_def fun_eq_iff)

lemma telnet_events_wire [simp]: "telnet_events m (s\<lparr>wire := w\<rparr>) = telnet_events m s"
  by (simp add: telnet_events_def broadcast_events_def)

lemma telnet_events_pending [simp]: "telnet_events m (s\<lparr>pending := q\<rparr>) = telnet_events m s"
  by (simp add: telnet_events_def broadcast_events_def slot_live_def)

lemmas log_eqs = log_msg_eq logln_eq sendToTelnet_eq

lemma admit_scan_full:
  "\<forall>i \<in> set is. connected (telnetClients s i) \<Longrightarrow> admit_scan p is s = (s, False)"
  by (induction "is") simp_all

lemma admit_scan_first:
  "\<forall>j \<in> set js. connected (telnetClients s j) \<Longrightarrow> \<not> connected (telnetClients s i)
     \<Longrightarrow> admit_scan p (js @ i # ks) s = (admit_at p i s, True)"
  by (induction js) simp_all

lemma reject_pending_eq:
  "pending s = c # cs \<Longrightarrow>
   reject_pending s =
     s\<lparr>pending := cs,
       wire := wire s @ (if sock_open c then [Sent (fd c) reject_message, Closed (fd c)] else [])
                @ telnet_events
                    (rejected_log @ CRLF) s\<rparr>"
  by (simp add: reject_pending_def server_available_def log_eqs client_print_def stop_event_def)

lemma getTelnetClientCount_cong:
  "slot_live s' = slot_live s \<Longrightarrow> getTelnetClientCount s' = getTelnetClientCount s"
  by (simp add: getTelnetClientCount_def)

lemma getTelnetClientCount_filter:
  "getTelnetClientCount s = length (filter (slot_live s) [0..<MAX_TELNET_CLIENTS])"
proof -
  have "foldl (\<lambda>count i. if slot_live s i then count + 1 else count) n is
          = n + length (filter (slot_live s) is)" for n "is"
    by (induction "is" arbitrary: n) simp_all
  then show ?thesis by (simp add: getTelnetClientCount_def)
qed

lemma peer_simps [simp]: "fd (peer k) = k" "sock_open (peer k)" "rxbuf (peer k) = []"
  by (simp_all add: peer_def)

lemma held_simps [simp]:
  "client (held k t) = peer k" "connected (held k t)" "lastActivity (held k t) = t"
  by (simp_all add: held_def)

lemma telnet_events_three_clients:
  "telnet_events m three_clients = [Sent 1 m, Sent 2 m, Sent 3 m]"
  by (simp add: telnet_events_def broadcast_events_def slot_ids slot_live_def three_clients_def
      initial_server_def default_config_def)

lemma static_simps [simp]:
  "static (s\<lparr>wire := w\<rparr>) = static s"
  "static (s\<lparr>telnetClients := tc\<rparr>) = static s"
  by (simp_all add: static_def)

lemma static_prims [simp]:
  "static (slot_print i m s) = static s"
  "static (slot_stop i s) = static s"
  "static (set_connected i b s) = static s"
  "static (set_lastActivity i t s) = static s"
  "static (set_rxbuf i r s) = static s"
  "static (store_client i c s) = static s"
  "static (broadcastTelnet m s) = static s"
  "static (log_msg m s) = static s"
  "static (logln m s) = static s"
  by (simp_all add: slot_print_def slot_stop_def set_connected_def set_lastActivity_def
      set_rxbuf_def store_client_def broadcastTelnet_eq log_eqs)

lemma static_run_hook [simp]: "static (final (run_hook i as s)) = static s"
  by (induction i as s rule: run_hook.induct) simp_all

lemma static_disconnectTelnetClients [simp]: "static (disconnectTelnetClients s) = static s"
proof -
  have "static (foldl (\<lambda>s i.
        if connected (telnetClients s i)
        then set_connected i False (slot_stop i (slot_print i shutdown_notice s))
        else s) s is) = static s" for "is"
    by (induction "is" arbitrary: s) simp_all
  then show ?thesis by (simp add: disconnectTelnetClients_def)
qed

lemma static_dispatch [simp]: "static (final (dispatch p i command s)) = static s"
  by (rule dispatch_cases) (simp_all add: restartDevice_def factoryReset_def)

lemma static_handle_command [simp]: "static (final (handle_command p i command s)) = static s"
  by (simp add: handle_command_def Let_def)

lemma drain_rel:
  assumes rfl: "\<And>s. R s s"
    and trans: "\<And>a b c. R a b \<Longrightarrow> R b c \<Longrightarrow> R a c"
    and rd: "\<And>s rest. R s (set_rxbuf i rest s)"
    and cmd: "\<And>s command. R s (final (handle_command p i command s))"
  shows "R s (final (drain p i s))"
  using rd cmd
proof (induction p i s rule: drain.induct)
  case (1 p i s)
  note step_rd = "1.prems"(1) and step_cmd = "1.prems"(2)
  show ?case
  proof (cases "rxbuf (client (telnetClients s i)) = []")
    case True
    then show ?thesis by (simp add: drain.simps [of p i s] rfl)
  next
    case False
    obtain line rest where split:
      "readStringUntil (CHR 0x0A) (rxbuf (client (telnetClients s i))) = (line, rest)"
      by (cases "readStringUntil (CHR 0x0A) (rxbuf (client (telnetClients s i)))")
    have r1: "R s (set_rxbuf i rest s)" by (rule step_rd)
    show ?thesis
    proof (cases "trim line = []")
      case True
      then have "R (set_rxbuf i rest s) (final (drain p i (set_rxbuf i rest s)))"
        using "1.IH"(2) [OF False split [symmetric] refl refl _ step_rd step_cmd] by simp
      with r1 have "R s (final (drain p i (set_rxbuf i rest s)))" by (rule trans)
      with False split True show ?thesis by (simp add: drain.simps [of p i s])
    next
      case nonempty: False
      have r2: "R (set_rxbuf i rest s) (final (handle_command p i (trim line) (set_rxbuf i rest s)))"
        by (rule step_cmd)
      show ?thesis
      proof (cases "handle_command p i (trim line) (set_rxbuf i rest s)")
        case (Restarted s')
        with r2 have "R (set_rxbuf i rest s) s'" by simp
        with r1 have "R s s'" by (rule trans)
        with Restarted False split nonempty show ?thesis by (simp add: drain.simps [of p i s])
      next
        case (Running s')
        with r2 have "R (set_rxbuf i rest s) s'" by simp
        with r1 have "R s s'" by (rule trans)
        moreover have "R s' (final (drain p i s'))"
          using "1.IH"(1) [OF False split [symmetric] refl refl nonempty Running step_rd step_cmd] .
        ultimately have "R s (final (drain p i s'))" by (rule trans)
        with Running False split nonempty show ?thesis by (simp add: drain.simps [of p i s])
      qed
    qed
  qed
qed

lemma static_drain [simp]: "static (final (drain p i s)) = static s"
  by (rule drain_rel [where R = "\<lambda>a b. static b = static a"]) simp_all

lemma static_check_timeout [simp]: "static (check_timeout p i s) = static s"
  by (simp add: check_timeout_def Let_def)

lemma static_client_gone [simp]: "static (client_gone i s) = static s"
  by (simp add: client_gone_def Let_def)

lemma serve_slot_rel:
  assumes rfl: "\<And>s. R s s"
    and trans: "\<And>a b c. R a b \<Longrightarrow> R b c \<Longrightarrow> R a c"
    and dr: "\<And>s. R s (final (drain p i s))"
    and ct: "\<And>s. R s (check_timeout p i s)"
    and cg: "\<And>s. R s (client_gone i s)"
  shows "R s (final (serve_slot p i s))"
proof (cases "slot_live s i")
  case True
  show ?thesis
  proof (cases "drain p i s")
    case (Restarted s')
    with dr [of s] True show ?thesis by (simp add: serve_slot_def)
  next
    case (Running s')
    with dr [of s] have "R s s'" by simp
    then have "R s (check_timeout p i s')" using ct [of s'] by (rule trans)
    with Running True show ?thesis by (simp add: serve_slot_def)
  qed
next
  case False
  with cg [of s] show ?thesis by (simp add: serve_slot_def)
qed

lemma serve_slots_rel:
  assumes rfl: "\<And>s. R s s"
    and trans: "\<And>a b c. R a b \<Longrightarrow> R b c \<Longrightarrow> R a c"
    and step: "\<And>s i. i \<in> set is \<Longrightarrow> R s (final (serve_slot p i s))"
  shows "R s (final (serve_slots p is s))"
  using step
proof (induction "is" arbitrary: s)
  case Nil
  show ?case by (simp add: rfl)
next
  case (Cons i "is")
  show ?case
  proof (cases "serve_slot p i s")
    case (Restarted s')
    with Cons.prems [of i s] show ?thesis by simp
  next
    case (Running s')
    with Cons.prems [of i s] have "R s s'" by simp
    moreover have "R s' (final (serve_slots p is s'))"
      by (rule Cons.IH) (simp add: Cons.prems)
    ultimately have "R s (final (serve_slots p is s'))" by (rule trans)
    with Running show ?thesis by simp
  qed
qed

lemma static_serve_slot [simp]: "static (final (serve_slot p i s)) = static s"
  by (rule serve_slot_rel [where R = "\<lambda>a b. static b = static a"]) simp_all

lemma static_serve_slots [simp]: "static (final (serve_slots p is s)) = static s"
  by (rule serve_slots_rel [where R = "\<lambda>a b. static b = static a"]) simp_all

lemma pending_static: "static s' = static s \<Longrightarrow> pending s' = pending s"
  by (simp add: static_def)

lemma slot_live_wire_at [simp]: "slot_live (s\<lparr>wire := w\<rparr>) i = slot_live s i"
  by (simp add: slot_live_def)

lemma getTelnetClientCount_wire [simp]:
  "getTelnetClientCount (s\<lparr>wire := w\<rparr>) = getTelnetClientCount s"
  by (simp add: getTelnetClientCount_def)

lemma welcome_message_wire [simp]: "welcome_message p (s\<lparr>wire := w\<rparr>) = welcome_message p s"
  by (simp add: welcome_message_def)

lemma slot_live_eq:
  "slot_live s = (\<lambda>i. connected (telnetClients s i) \<and> sock_open (client (telnetClients s i)))"
  by (simp add: slot_live_def fun_eq_iff)

lemma telnet_events_cong:
  "config a = config b \<Longrightarrow> telnetClients a = telnetClients b
     \<Longrightarrow> telnet_events m a = telnet_events m b"
  by (simp add: telnet_events_def broadcast_events_def slot_live_eq)

lemma getTelnetClientCount_cong_tc:
  "telnetClients a = telnetClients b \<Longrightarrow> getTelnetClientCount a = getTelnetClientCount b"
  by (simp add: getTelnetClientCount_def slot_live_def)

lemma welcome_message_cong:
  "config a = config b \<Longrightarrow> deviceUptime a = deviceUptime b \<Longrightarrow> telnetClients a = telnetClients b
     \<Longrightarrow> welcome_message p a = welcome_message p b"
  using getTelnetClientCount_cong_tc [of a b] by (simp add: welcome_message_def)

lemma admit_at_eq:
  assumes q: "pending s = c # cs"
  shows "admit_at p i s =
     (admitted p i c s)\<lparr>wire := wire s
        @ (if sock_open (client (telnetClients s i))
           then [Closed (fd (client (telnetClients s i)))] else [])
        @ (if sock_open c then [Sent (fd c) (welcome_message p (admitted p i c s))] else [])
        @ telnet_events connected_log (admitted p i c s)
        @ telnet_events (remoteIP c @ CRLF) (admitted p i c s)\<rparr>"
proof -
  define s1 where "s1 = (if sock_open (client (telnetClients s i)) then slot_stop i s else s)"
  define s5 where "s5 = set_lastActivity i (millis p) (set_connected i True
                          (store_client i c (s1\<lparr>pending := cs\<rparr>)))"
  define s6 where "s6 = slot_print i (welcome_message p s5) s5"
  define s7 where "s7 = log_msg connected_log s6"
  have av: "server_available s1 = (c, s1\<lparr>pending := cs\<rparr>)"
    using q by (simp add: s1_def server_available_def slot_stop_def)
  have unfolded: "admit_at p i s = logln (remoteIP (client (telnetClients s7 i))) s7"
    by (simp add: admit_at_def Let_def av s1_def [symmetric] s5_def [symmetric]
        s6_def [symmetric] s7_def [symmetric])
  have tc: "(telnetClients s1)
      (i := (telnetClients s1 i)\<lparr>client := c, connected := True, lastActivity := millis p\<rparr>)
      = (telnetClients s)(i := \<lparr>client = c, connected = True, lastActivity = millis p\<rparr>)"
    by (cases "telnetClients s1 i") (simp add: s1_def slot_stop_def)
  have s5: "s5 = (admitted p i c s)\<lparr>wire := wire s1\<rparr>"
    using q tc
    by (simp add: s5_def admitted_def store_client_def set_connected_def set_lastActivity_def)
       (simp add: s1_def slot_stop_def)
  have w1: "wire s1 = wire s @ (if sock_open (client (telnetClients s i))
           then [Closed (fd (client (telnetClients s i)))] else [])"
    by (simp add: s1_def slot_stop_def stop_event_def)
  have views: "config s5 = config (admitted p i c s)" "deviceUptime s5 = deviceUptime (admitted p i c s)"
    "telnetClients s5 = telnetClients (admitted p i c s)"
    by (simp_all add: s5)
  have wm: "welcome_message p s5 = welcome_message p (admitted p i c s)"
    by (rule welcome_message_cong [OF views])
  have ci: "client (telnetClients s5 i) = c"
    by (simp add: s5 admitted_def)
  have s6: "s6 = (admitted p i c s)\<lparr>wire := wire s1
      @ (if sock_open c then [Sent (fd c) (welcome_message p (admitted p i c s))] else [])\<rparr>"
    by (simp add: s6_def slot_print_def client_print_def ci wm) (simp add: s5)
  have ev6: "telnet_events m s6 = telnet_events m (admitted p i c s)" for m
    by (rule telnet_events_cong) (simp_all add: s6)
  have s7: "s7 = (admitted p i c s)\<lparr>wire := wire s1
      @ (if sock_open c then [Sent (fd c) (welcome_message p (admitted p i c s))] else [])
      @ telnet_events connected_log (admitted p i c s)\<rparr>"
    by (simp add: s7_def log_eqs ev6) (simp add: s6)
  have ev7: "telnet_events m s7 = telnet_events m (admitted p i c s)" for m
    by (rule telnet_events_cong) (simp_all add: s7)
  have c7: "client (telnetClients s7 i) = c"
    by (simp add: s7 admitted_def)
  show ?thesis
    unfolding unfolded by (simp add: log_eqs ev7 c7) (simp add: s7 w1)
qed

lemma slot_ids_split:
  "i < MAX_TELNET_CLIENTS \<Longrightarrow> [0..<MAX_TELNET_CLIENTS] = [0..<i] @ i # [Suc i..<MAX_TELNET_CLIENTS]"
proof -
  assume "i < MAX_TELNET_CLIENTS"
  then have "i = 0 \<or> i = 1 \<or> i = 2"
    by (auto simp: MAX_TELNET_CLIENTS_def)
  then show ?thesis
    by (auto simp: MAX_TELNET_CLIENTS_def upt_rec)
qed

lemma accept_pending_admit:
  assumes q: "pending s = c # cs"
    and i: "i < MAX_TELNET_CLIENTS"
    and free: "\<not> connected (telnetClients s i)"
    and lowest: "\<forall>j<i. connected (telnetClients s j)"
  shows "accept_pending p s = admit_at p i s"
proof -
  have "admit_scan p ([0..<i] @ i # [Suc i..<MAX_TELNET_CLIENTS]) s = (admit_at p i s, True)"
    using lowest free by (intro admit_scan_first) simp_all
  with q i show ?thesis
    by (simp add: accept_pending_def hasClient_def slot_ids_split [symmetric])
qed

lemma admit_at_settings:
  "settings (admit_at p i s) = settings s \<and> pending (admit_at p i s) = tl (pending s)"
  by (simp add: admit_at_def Let_def server_available_def settings_def slot_stop_def
      store_client_def set_connected_def set_lastActivity_def slot_print_def log_eqs
      split: list.split)

lemma admit_scan_settings:
  "settings (fst (admit_scan p is s)) = settings s
   \<and> pending (fst (admit_scan p is s)) = (if snd (admit_scan p is s) then tl (pending s) else pending s)"
  by (induction "is") (simp_all add: admit_at_settings)

lemma reject_pending_settings:
  "settings (reject_pending s) = settings s \<and> pending (reject_pending s) = tl (pending s)"
  by (simp add: reject_pending_def Let_def server_available_def settings_def log_eqs
      split: list.split)

lemma accept_pending_settings:
  "settings (accept_pending p s) = settings s \<and> pending (accept_pending p s) = tl (pending s)"
proof (cases "hasClient s")
  case True
  obtain s' acc where sc: "admit_scan p [0..<MAX_TELNET_CLIENTS] s = (s', acc)"
    by (cases "admit_scan p [0..<MAX_TELNET_CLIENTS] s")
  with admit_scan_settings [of p "[0..<MAX_TELNET_CLIENTS]" s]
  have s': "settings s' = settings s" "pending s' = (if acc then tl (pending s) else pending s)"
    by simp_all
  show ?thesis
    using True sc s' reject_pending_settings [of s']
    by (simp add: accept_pending_def)
next
  case False
  then show ?thesis by (simp add: accept_pending_def hasClient_def)
qed

lemma config_settings: "settings s' = settings s \<Longrightarrow> config s' = config s"
  by (simp add: settings_def)

lemma telnet_events_eval:
  "telnet_events m s =
     (if enableTelnet (config s)
      then map (\<lambda>i. Sent (fd (client (telnetClients s i))) m)
             (filter (\<lambda>i. connected (telnetClients s i) \<and> sock_open (client (telnetClients s i)))
                [0, 1, 2])
      else [])"
  by (simp add: telnet_events_def broadcast_events_def slot_ids slot_live_eq)

lemma millis_bench: "millis bench = 5000"
  by (simp add: bench_def)

subsection \<open>Admission at capacity\<close>

text \<open>
  Claim C1. When a connection is pending and every slot is marked connected, the
  accepting step of \<^verbatim>\<open>handleTelnet\<close> rejects it: the slot array is left exactly as it
  was; the pending connection is taken off the queue and stored nowhere; if it was open,
  it is sent the one capacity message, a cross mark and the text
  \<^verbatim>\<open>Maximum telnet clients reached (3). Try again later.\<close>, and then closed; the only other
  traffic is the log line that \<^verbatim>\<open>logln\<close> sends to the live slots;
  \<^verbatim>\<open>getTelnetClientCount\<close> returns what it returned before, which is 3 when all three
  transports are open.
\<close>

theorem reject_at_capacity:
  assumes q: "pending s = c # cs"
    and full: "\<forall>i<MAX_TELNET_CLIENTS. connected (telnetClients s i)"
  shows "telnetClients (accept_pending p s) = telnetClients s
       \<and> pending (accept_pending p s) = cs
       \<and> wire (accept_pending p s) =
           wire s @ (if sock_open c then [Sent (fd c) reject_message, Closed (fd c)] else [])
             @ telnet_events
                 (rejected_log @ CRLF) s
       \<and> getTelnetClientCount (accept_pending p s) = getTelnetClientCount s
       \<and> ((\<forall>i<MAX_TELNET_CLIENTS. sock_open (client (telnetClients s i)))
            \<longrightarrow> getTelnetClientCount (accept_pending p s) = 3)
       \<and> reject_message =
           [CHR 0xE2, CHR 0x9D, CHR 0x8C] @ '' Maximum telnet clients reached (3). Try again later.''
             @ [CHR 0x0D, CHR 0x0A]"
proof -
  from full have "admit_scan p [0..<MAX_TELNET_CLIENTS] s = (s, False)"
    by (intro admit_scan_full) simp
  with q have eq: "accept_pending p s = reject_pending s"
    by (simp add: accept_pending_def hasClient_def)
  have live: "slot_live (reject_pending s) = slot_live s"
    by (simp add: reject_pending_eq [OF q])
  have cnt: "getTelnetClientCount (accept_pending p s) = getTelnetClientCount s"
    unfolding eq by (rule getTelnetClientCount_cong [OF live])
  have three: "getTelnetClientCount (accept_pending p s) = 3"
    if "\<forall>i<MAX_TELNET_CLIENTS. sock_open (client (telnetClients s i))"
    unfolding cnt using that full
    by (simp add: getTelnetClientCount_filter slot_ids slot_live_def MAX_TELNET_CLIENTS_def)
  have "telnetClients (accept_pending p s) = telnetClients s"
    by (simp add: eq reject_pending_eq [OF q])
  moreover have "pending (accept_pending p s) = cs"
    by (simp add: eq reject_pending_eq [OF q])
  moreover have "wire (accept_pending p s) =
           wire s @ (if sock_open c then [Sent (fd c) reject_message, Closed (fd c)] else [])
             @ telnet_events (rejected_log @ CRLF) s"
    by (simp add: eq reject_pending_eq [OF q])
  moreover have "reject_message =
           [CHR 0xE2, CHR 0x9D, CHR 0x8C] @ '' Maximum telnet clients reached (3). Try again later.''
             @ [CHR 0x0D, CHR 0x0A]"
    by (simp add: reject_message_def emoji_cross_def CRLF_def MAX_TELNET_CLIENTS_def
        String_nat.simps [of 3] digit_char_def)
  ultimately show ?thesis using cnt three by blast
qed

theorem reject_at_capacity_witness:
  "pending (three_clients\<lparr>pending := [peer 4]\<rparr>) = [peer 4]
   \<and> telnetClients (accept_pending bench (three_clients\<lparr>pending := [peer 4]\<rparr>))
       = telnetClients (three_clients\<lparr>pending := [peer 4]\<rparr>)
   \<and> pending (accept_pending bench (three_clients\<lparr>pending := [peer 4]\<rparr>)) = []
   \<and> wire (accept_pending bench (three_clients\<lparr>pending := [peer 4]\<rparr>))
       = [Sent 4 ([CHR 0xE2, CHR 0x9D, CHR 0x8C]
                  @ '' Maximum telnet clients reached (3). Try again later.''
                  @ [CHR 0x0D, CHR 0x0A]),
          Closed 4,
          Sent 1 (rejected_log @ CRLF), Sent 2 (rejected_log @ CRLF), Sent 3 (rejected_log @ CRLF)]
   \<and> getTelnetClientCount (accept_pending bench (three_clients\<lparr>pending := [peer 4]\<rparr>)) = 3"
proof -
  let ?s = "three_clients\<lparr>pending := [peer 4]\<rparr>"
  have q: "pending ?s = peer 4 # []" by simp
  have full: "\<forall>i<MAX_TELNET_CLIENTS. connected (telnetClients ?s i)"
    by (simp add: three_clients_def MAX_TELNET_CLIENTS_def)
  have opened: "\<forall>i<MAX_TELNET_CLIENTS. sock_open (client (telnetClients ?s i))"
    by (simp add: three_clients_def MAX_TELNET_CLIENTS_def)
  have w: "wire ?s = []" by (simp add: three_clients_def initial_server_def)
  note inst = reject_at_capacity [OF q full, of bench]
  from inst have rm: "reject_message = [CHR 0xE2, CHR 0x9D, CHR 0x8C]
      @ '' Maximum telnet clients reached (3). Try again later.'' @ [CHR 0x0D, CHR 0x0A]"
    by blast
  from inst have "telnetClients (accept_pending bench ?s) = telnetClients ?s"
    and "pending (accept_pending bench ?s) = []"
    and wr: "wire (accept_pending bench ?s) =
           wire ?s @ (if sock_open (peer 4) then [Sent (fd (peer 4)) reject_message, Closed (fd (peer 4))] else [])
             @ telnet_events (rejected_log @ CRLF) ?s"
    and "getTelnetClientCount (accept_pending bench ?s) = 3"
    using opened by blast+
  moreover have "wire (accept_pending bench ?s)
       = [Sent 4 ([CHR 0xE2, CHR 0x9D, CHR 0x8C]
                  @ '' Maximum telnet clients reached (3). Try again later.''
                  @ [CHR 0x0D, CHR 0x0A]),
          Closed 4,
          Sent 1 (rejected_log @ CRLF), Sent 2 (rejected_log @ CRLF), Sent 3 (rejected_log @ CRLF)]"
    unfolding wr rm [symmetric] by (simp add: w telnet_events_three_clients)
  moreover have "pending ?s = [peer 4]" by simp
  ultimately show ?thesis by (intro conjI)
qed

subsection \<open>Admission into a free slot\<close>

lemma welcome_message_bytes:
  "welcome_message p s =
     [CHR 0x0D, CHR 0x0A]
     @ [CHR 0xE2, CHR 0x94, CHR 0x8C] @ concat (replicate 40 [CHR 0xE2, CHR 0x94, CHR 0x80])
         @ [CHR 0xE2, CHR 0x94, CHR 0x90] @ [CHR 0x0D, CHR 0x0A]
     @ [CHR 0xE2, CHR 0x94, CHR 0x82] @ ''       ESP32-S3 EasyConnect Telnet     ''
         @ [CHR 0xE2, CHR 0x94, CHR 0x82] @ [CHR 0x0D, CHR 0x0A]
     @ [CHR 0xE2, CHR 0x94, CHR 0x82] @ ''              Framework v1.2.0         ''
         @ [CHR 0xE2, CHR 0x94, CHR 0x82] @ [CHR 0x0D, CHR 0x0A]
     @ [CHR 0xE2, CHR 0x94, CHR 0x94] @ concat (replicate 40 [CHR 0xE2, CHR 0x94, CHR 0x80])
         @ [CHR 0xE2, CHR 0x94, CHR 0x98] @ [CHR 0x0D, CHR 0x0A]
     @ ''Device: '' @ deviceName (config s) @ [CHR 0x0D, CHR 0x0A]
     @ ''IP: '' @ localIP p @ [CHR 0x0D, CHR 0x0A]
     @ ''Free Heap: '' @ String_nat (freeHeap p) @ '' bytes'' @ [CHR 0x0D, CHR 0x0A]
     @ ''Uptime: '' @ String_nat (unat (deviceUptime s div 1000)) @ ''s'' @ [CHR 0x0D, CHR 0x0A]
     @ ''Connected clients: ''
         @ String_nat (getTelnetClientCount s)
         @ ''/3'' @ [CHR 0x0D, CHR 0x0A]
     @ ''Type 'help' for available commands'' @ [CHR 0x0D, CHR 0x0A]
     @ ''----------------------------------------'' @ [CHR 0x0D, CHR 0x0A]
     @ ''> ''"
  by (simp add: welcome_message_def CRLF_def box_top_def box_bottom_def box_v_def box_h_def
      PROMPT_def MAX_TELNET_CLIENTS_def String_nat.simps [of 3] digit_char_def)

lemma getTelnetClientCount_admitted:
  "getTelnetClientCount (admitted p i c s) =
     length (filter (\<lambda>j. if j = i then sock_open c
                         else connected (telnetClients s j) \<and> sock_open (client (telnetClients s j)))
               [0..<3])"
proof -
  have "[0..<MAX_TELNET_CLIENTS] = [0..<3]" by (simp add: MAX_TELNET_CLIENTS_def)
  moreover have "slot_live (admitted p i c s) =
      (\<lambda>j. if j = i then sock_open c
           else connected (telnetClients s j) \<and> sock_open (client (telnetClients s j)))"
    by (simp add: fun_eq_iff slot_live_def admitted_def)
  ultimately show ?thesis by (simp only: getTelnetClientCount_filter)
qed

text \<open>
  Claim C2. When a connection \<open>c\<close> is pending and \<open>i\<close> is the lowest index whose slot is
  not marked connected, the accepting step of \<^verbatim>\<open>handleTelnet\<close> changes slot \<open>i\<close> and no
  other: it holds \<open>c\<close>, is marked connected, and has \<open>lastActivity\<close> set to the current
  \<^verbatim>\<open>millis()\<close>. On the wire, a transport that was still open in that slot is closed
  first, then the welcome text goes to \<open>c\<close>, then the two log lines go to the live slots.
  The welcome text is the banner followed by the device name of the configuration, the
  local IP address, the free heap in bytes, the uptime in seconds, the number of live
  slots counted with the new client in its slot, out of 3, the hint at \<^verbatim>\<open>help\<close>, a rule
  and the prompt. Exactly the head of the queue is taken, by the accepting step and by
  the whole call: the connections behind it are still pending when \<^verbatim>\<open>handleTelnet\<close> ends.
\<close>

theorem admit_lowest_free:
  assumes q: "pending s = c # cs"
    and i: "i < MAX_TELNET_CLIENTS"
    and free: "\<not> connected (telnetClients s i)"
    and lowest: "\<forall>j<i. connected (telnetClients s j)"
  shows "telnetClients (accept_pending p s) =
           (telnetClients s)(i := \<lparr>client = c, connected = True, lastActivity = millis p\<rparr>)
       \<and> pending (accept_pending p s) = cs
       \<and> wire (accept_pending p s) =
           wire s
           @ (if sock_open (client (telnetClients s i))
              then [Closed (fd (client (telnetClients s i)))] else [])
           @ (if sock_open c then [Sent (fd c) (welcome_message p (accept_pending p s))] else [])
           @ telnet_events connected_log (accept_pending p s)
           @ telnet_events (remoteIP c @ CRLF) (accept_pending p s)
       \<and> welcome_message p (accept_pending p s) =
           [CHR 0x0D, CHR 0x0A]
           @ [CHR 0xE2, CHR 0x94, CHR 0x8C] @ concat (replicate 40 [CHR 0xE2, CHR 0x94, CHR 0x80])
               @ [CHR 0xE2, CHR 0x94, CHR 0x90] @ [CHR 0x0D, CHR 0x0A]
           @ [CHR 0xE2, CHR 0x94, CHR 0x82] @ ''       ESP32-S3 EasyConnect Telnet     ''
               @ [CHR 0xE2, CHR 0x94, CHR 0x82] @ [CHR 0x0D, CHR 0x0A]
           @ [CHR 0xE2, CHR 0x94, CHR 0x82] @ ''              Framework v1.2.0         ''
               @ [CHR 0xE2, CHR 0x94, CHR 0x82] @ [CHR 0x0D, CHR 0x0A]
           @ [CHR 0xE2, CHR 0x94, CHR 0x94] @ concat (replicate 40 [CHR 0xE2, CHR 0x94, CHR 0x80])
               @ [CHR 0xE2, CHR 0x94, CHR 0x98] @ [CHR 0x0D, CHR 0x0A]
           @ ''Device: '' @ deviceName (config s) @ [CHR 0x0D, CHR 0x0A]
           @ ''IP: '' @ localIP p @ [CHR 0x0D, CHR 0x0A]
           @ ''Free Heap: '' @ String_nat (freeHeap p) @ '' bytes'' @ [CHR 0x0D, CHR 0x0A]
           @ ''Uptime: '' @ String_nat (unat (deviceUptime s div 1000)) @ ''s'' @ [CHR 0x0D, CHR 0x0A]
           @ ''Connected clients: ''
               @ String_nat (length (filter
                   (\<lambda>j. if j = i then sock_open c
                        else connected (telnetClients s j) \<and> sock_open (client (telnetClients s j)))
                   [0..<3]))
               @ ''/3'' @ [CHR 0x0D, CHR 0x0A]
           @ ''Type 'help' for available commands'' @ [CHR 0x0D, CHR 0x0A]
           @ ''----------------------------------------'' @ [CHR 0x0D, CHR 0x0A]
           @ ''> ''
       \<and> pending (final (handleTelnet p s)) = cs"
proof -
  let ?a = "admitted p i c s"
  note eq = accept_pending_admit [OF q i free lowest, of p] admit_at_eq [OF q, of p i]
  have tc: "telnetClients (accept_pending p s) = telnetClients ?a"
    and cf: "config (accept_pending p s) = config ?a"
    and up: "deviceUptime (accept_pending p s) = deviceUptime ?a"
    by (simp_all add: eq)
  have ev: "telnet_events m (accept_pending p s) = telnet_events m ?a" for m
    by (rule telnet_events_cong [OF cf tc])
  have wm: "welcome_message p (accept_pending p s) = welcome_message p ?a"
    by (rule welcome_message_cong [OF cf up tc])
  have fields: "config ?a = config s" "deviceUptime ?a = deviceUptime s"
    by (simp_all add: admitted_def)
  have "telnetClients (accept_pending p s) =
           (telnetClients s)(i := \<lparr>client = c, connected = True, lastActivity = millis p\<rparr>)"
    by (simp add: tc admitted_def)
  moreover have pd: "pending (accept_pending p s) = cs"
    using q by (simp add: eq admitted_def)
  moreover have "wire (accept_pending p s) =
           wire s
           @ (if sock_open (client (telnetClients s i))
              then [Closed (fd (client (telnetClients s i)))] else [])
           @ (if sock_open c then [Sent (fd c) (welcome_message p (accept_pending p s))] else [])
           @ telnet_events connected_log (accept_pending p s)
           @ telnet_events (remoteIP c @ CRLF) (accept_pending p s)"
    unfolding ev wm by (simp add: eq)
  moreover have "welcome_message p (accept_pending p s) =
           [CHR 0x0D, CHR 0x0A]
           @ [CHR 0xE2, CHR 0x94, CHR 0x8C] @ concat (replicate 40 [CHR 0xE2, CHR 0x94, CHR 0x80])
               @ [CHR 0xE2, CHR 0x94, CHR 0x90] @ [CHR 0x0D, CHR 0x0A]
           @ [CHR 0xE2, CHR 0x94, CHR 0x82] @ ''       ESP32-S3 EasyConnect Telnet     ''
               @ [CHR 0xE2, CHR 0x94, CHR 0x82] @ [CHR 0x0D, CHR 0x0A]
           @ [CHR 0xE2, CHR 0x94, CHR 0x82] @ ''              Framework v1.2.0         ''
               @ [CHR 0xE2, CHR 0x94, CHR 0x82] @ [CHR 0x0D, CHR 0x0A]
           @ [CHR 0xE2, CHR 0x94, CHR 0x94] @ concat (replicate 40 [CHR 0xE2, CHR 0x94, CHR 0x80])
               @ [CHR 0xE2, CHR 0x94, CHR 0x98] @ [CHR 0x0D, CHR 0x0A]
           @ ''Device: '' @ deviceName (config s) @ [CHR 0x0D, CHR 0x0A]
           @ ''IP: '' @ localIP p @ [CHR 0x0D, CHR 0x0A]
           @ ''Free Heap: '' @ String_nat (freeHeap p) @ '' bytes'' @ [CHR 0x0D, CHR 0x0A]
           @ ''Uptime: '' @ String_nat (unat (deviceUptime s div 1000)) @ ''s'' @ [CHR 0x0D, CHR 0x0A]
           @ ''Connected clients: ''
               @ String_nat (length (filter
                   (\<lambda>j. if j = i then sock_open c
                        else connected (telnetClients s j) \<and> sock_open (client (telnetClients s j)))
                   [0..<3]))
               @ ''/3'' @ [CHR 0x0D, CHR 0x0A]
           @ ''Type 'help' for available commands'' @ [CHR 0x0D, CHR 0x0A]
           @ ''----------------------------------------'' @ [CHR 0x0D, CHR 0x0A]
           @ ''> ''"
    unfolding wm welcome_message_bytes [of p ?a] getTelnetClientCount_admitted fields ..
  moreover have "pending (final (handleTelnet p s)) = cs"
    using pending_static [OF static_serve_slots, of p "[0..<MAX_TELNET_CLIENTS]" "accept_pending p s"]
    by (simp add: handleTelnet_def pd)
  ultimately show ?thesis by blast
qed

text \<open>
  For instance, with one client in slot 0, a stale open transport in the free slot 1 and
  two connections waiting, the first of them is admitted into slot 1 and greeted with
  the device name, the address, the heap, an uptime of 0 seconds and an occupancy of 2
  out of 3.
\<close>

theorem admit_lowest_free_witness:
  "pending stale_server = [peer 7, peer 8]
   \<and> (1::nat) < MAX_TELNET_CLIENTS
   \<and> connected (telnetClients stale_server 0)
   \<and> \<not> connected (telnetClients stale_server 1)
   \<and> \<not> connected (telnetClients stale_server 2)
   \<and> telnetClients (accept_pending bench stale_server) 1
        = \<lparr>client = peer 7, connected = True, lastActivity = 5000\<rparr>
   \<and> telnetClients (accept_pending bench stale_server) 2 = free_slot
   \<and> pending (accept_pending bench stale_server) = [peer 8]
   \<and> wire (accept_pending bench stale_server) =
        [Closed 2, Sent 7 (welcome_message bench (accept_pending bench stale_server)),
         Sent 1 connected_log, Sent 7 connected_log,
         Sent 1 (remoteIP (peer 7) @ CRLF), Sent 7 (remoteIP (peer 7) @ CRLF)]
   \<and> welcome_message bench (accept_pending bench stale_server) =
        [CHR 0x0D, CHR 0x0A]
        @ [CHR 0xE2, CHR 0x94, CHR 0x8C] @ concat (replicate 40 [CHR 0xE2, CHR 0x94, CHR 0x80])
            @ [CHR 0xE2, CHR 0x94, CHR 0x90] @ [CHR 0x0D, CHR 0x0A]
        @ [CHR 0xE2, CHR 0x94, CHR 0x82] @ ''       ESP32-S3 EasyConnect Telnet     ''
            @ [CHR 0xE2, CHR 0x94, CHR 0x82] @ [CHR 0x0D, CHR 0x0A]
        @ [CHR 0xE2, CHR 0x94, CHR 0x82] @ ''              Framework v1.2.0         ''
            @ [CHR 0xE2, CHR 0x94, CHR 0x82] @ [CHR 0x0D, CHR 0x0A]
        @ [CHR 0xE2, CHR 0x94, CHR 0x94] @ concat (replicate 40 [CHR 0xE2, CHR 0x94, CHR 0x80])
            @ [CHR 0xE2, CHR 0x94, CHR 0x98] @ [CHR 0x0D, CHR 0x0A]
        @ ''Device: '' @ ''ESP32-S3-Device'' @ [CHR 0x0D, CHR 0x0A]
        @ ''IP: '' @ ''192.168.4.20'' @ [CHR 0x0D, CHR 0x0A]
        @ ''Free Heap: '' @ ''212344'' @ '' bytes'' @ [CHR 0x0D, CHR 0x0A]
        @ ''Uptime: '' @ ''0'' @ ''s'' @ [CHR 0x0D, CHR 0x0A]
        @ ''Connected clients: ''
            @ ''2''
            @ ''/3'' @ [CHR 0x0D, CHR 0x0A]
        @ ''Type 'help' for available commands'' @ [CHR 0x0D, CHR 0x0A]
        @ ''----------------------------------------'' @ [CHR 0x0D, CHR 0x0A]
        @ ''> ''
   \<and> pending (final (handleTelnet bench stale_server)) = [peer 8]"
proof -
  have q: "pending stale_server = peer 7 # [peer 8]"
    by (simp add: stale_server_def)
  have i: "(1::nat) < MAX_TELNET_CLIENTS" by (simp add: MAX_TELNET_CLIENTS_def)
  have free: "\<not> connected (telnetClients stale_server 1)"
    by (simp add: stale_server_def)
  have lowest: "\<forall>j<1. connected (telnetClients stale_server j)"
    by (simp add: stale_server_def)
  note inst = admit_lowest_free [OF q i free lowest, of bench]
  have tc: "telnetClients (accept_pending bench stale_server) =
      (telnetClients stale_server)(1 := \<lparr>client = peer 7, connected = True, lastActivity = millis bench\<rparr>)"
    using inst by blast
  have cf: "enableTelnet (config (accept_pending bench stale_server))"
    using config_settings [of "accept_pending bench stale_server" stale_server]
    by (simp add: accept_pending_settings stale_server_def initial_server_def default_config_def)
  have ev: "telnet_events m (accept_pending bench stale_server) = [Sent 1 m, Sent 7 m]" for m
    by (simp add: telnet_events_eval cf tc) (simp add: stale_server_def free_slot_def)
  have w: "wire stale_server = []" by (simp add: stale_server_def initial_server_def)
  have old: "client (telnetClients stale_server (Suc 0)) = peer 2"
    "telnetClients stale_server 2 = free_slot" "connected (telnetClients stale_server 0)"
    "\<not> connected (telnetClients stale_server 2)"
    by (simp_all add: stale_server_def free_slot_def)
  have readings: "deviceName (config stale_server) = ''ESP32-S3-Device''"
    "localIP bench = ''192.168.4.20''" "String_nat (freeHeap bench) = ''212344''"
    "String_nat (unat (deviceUptime stale_server div 1000)) = ''0''"
    "String_nat (length (filter (\<lambda>j. if j = 1 then sock_open (peer 7)
         else connected (telnetClients stale_server j) \<and> sock_open (client (telnetClients stale_server j)))
       [0..<3])) = ''2''"
    by (simp_all add: stale_server_def initial_server_def default_config_def bench_def
        free_slot_def String_nat.simps digit_char_def upt_rec)
  from inst have greeting: "welcome_message bench (accept_pending bench stale_server) =
        [CHR 0x0D, CHR 0x0A]
        @ [CHR 0xE2, CHR 0x94, CHR 0x8C] @ concat (replicate 40 [CHR 0xE2, CHR 0x94, CHR 0x80])
            @ [CHR 0xE2, CHR 0x94, CHR 0x90] @ [CHR 0x0D, CHR 0x0A]
        @ [CHR 0xE2, CHR 0x94, CHR 0x82] @ ''       ESP32-S3 EasyConnect Telnet     ''
            @ [CHR 0xE2, CHR 0x94, CHR 0x82] @ [CHR 0x0D, CHR 0x0A]
        @ [CHR 0xE2, CHR 0x94, CHR 0x82] @ ''              Framework v1.2.0         ''
            @ [CHR 0xE2, CHR 0x94, CHR 0x82] @ [CHR 0x0D, CHR 0x0A]
        @ [CHR 0xE2, CHR 0x94, CHR 0x94] @ concat (replicate 40 [CHR 0xE2, CHR 0x94, CHR 0x80])
            @ [CHR 0xE2, CHR 0x94, CHR 0x98] @ [CHR 0x0D, CHR 0x0A]
        @ ''Device: '' @ ''ESP32-S3-Device'' @ [CHR 0x0D, CHR 0x0A]
        @ ''IP: '' @ ''192.168.4.20'' @ [CHR 0x0D, CHR 0x0A]
        @ ''Free Heap: '' @ ''212344'' @ '' bytes'' @ [CHR 0x0D, CHR 0x0A]
        @ ''Uptime: '' @ ''0'' @ ''s'' @ [CHR 0x0D, CHR 0x0A]
        @ ''Connected clients: ''
            @ ''2''
            @ ''/3'' @ [CHR 0x0D, CHR 0x0A]
        @ ''Type 'help' for available commands'' @ [CHR 0x0D, CHR 0x0A]
        @ ''----------------------------------------'' @ [CHR 0x0D, CHR 0x0A]
        @ ''> ''"
    unfolding readings by blast
  from inst have rest: "telnetClients (accept_pending bench stale_server) 1
        = \<lparr>client = peer 7, connected = True, lastActivity = 5000\<rparr>
   \<and> telnetClients (accept_pending bench stale_server) 2 = free_slot
   \<and> pending (accept_pending bench stale_server) = [peer 8]
   \<and> wire (accept_pending bench stale_server) =
        [Closed 2, Sent 7 (welcome_message bench (accept_pending bench stale_server)),
         Sent 1 connected_log, Sent 7 connected_log,
         Sent 1 (remoteIP (peer 7) @ CRLF), Sent 7 (remoteIP (peer 7) @ CRLF)]
   \<and> pending (final (handleTelnet bench stale_server)) = [peer 8]"
    unfolding ev using free by (simp add: q old w millis_bench free_slot_def)
  from q i old(3) free old(4) rest greeting show ?thesis by (intro conjI) simp_all
qed

subsection \<open>The idle timeout\<close>

lemma check_timeout_idle:
  "\<not> 600000 < millis p - lastActivity (telnetClients s i) \<Longrightarrow> check_timeout p i s = s"
  by (simp add: check_timeout_def)

lemma check_timeout_expired:
  assumes "600000 < millis p - lastActivity (telnetClients s i)"
  shows "check_timeout p i s =
     s\<lparr>telnetClients := (telnetClients s)
          (i := (telnetClients s i)\<lparr>client := client_stop (client (telnetClients s i)),
                                     connected := False\<rparr>),
       wire := wire s @ telnet_events timeout_log s
                 @ telnet_events (remoteIP (client (telnetClients s i)) @ CRLF) s
                 @ (if sock_open (client (telnetClients s i))
                    then [Sent (fd (client (telnetClients s i))) timeout_notice,
                          Closed (fd (client (telnetClients s i)))]
                    else [])\<rparr>"
  using assms
  by (simp add: check_timeout_def Let_def log_eqs slot_print_def slot_stop_def set_connected_def
      client_print_def stop_event_def)

lemma serve_slot_idle:
  "slot_live s i \<Longrightarrow> rxbuf (client (telnetClients s i)) = []
     \<Longrightarrow> serve_slot p i s = Running (check_timeout p i s)"
  by (simp add: serve_slot_def drain.simps [of p i s])

text \<open>
  Claim C3. The timeout check that ends a slot's round of the serving loop frees the slot
  exactly when \<^verbatim>\<open>millis() - lastActivity\<close>, computed in unsigned 32-bit arithmetic, is
  greater than 600000: afterwards the slot is marked connected if and only if it was and
  the difference is at most 600000. When the difference is at most 600000 the check
  changes nothing. When it is greater, the transport is closed, after the goodbye text
  has been sent to it, and no other slot changes. For a live slot with nothing to read,
  the round of the serving loop is this check alone.
\<close>

theorem idle_reaper:
  "(connected (telnetClients (check_timeout p i s) i)
      \<longleftrightarrow> connected (telnetClients s i) \<and> \<not> 600000 < millis p - lastActivity (telnetClients s i))
   \<and> (\<not> 600000 < millis p - lastActivity (telnetClients s i) \<longrightarrow> check_timeout p i s = s)
   \<and> (600000 < millis p - lastActivity (telnetClients s i) \<longrightarrow>
        \<not> sock_open (client (telnetClients (check_timeout p i s) i))
        \<and> (\<forall>j. j \<noteq> i \<longrightarrow> telnetClients (check_timeout p i s) j = telnetClients s j)
        \<and> (sock_open (client (telnetClients s i)) \<longrightarrow>
             wire (check_timeout p i s) =
               wire s @ telnet_events timeout_log s
                 @ telnet_events (remoteIP (client (telnetClients s i)) @ CRLF) s
                 @ [Sent (fd (client (telnetClients s i))) timeout_notice,
                    Closed (fd (client (telnetClients s i)))]))
   \<and> (slot_live s i \<and> rxbuf (client (telnetClients s i)) = [] \<longrightarrow>
        serve_slot p i s = Running (check_timeout p i s))"
proof (cases "600000 < millis p - lastActivity (telnetClients s i)")
  case True
  show ?thesis
    using True serve_slot_idle [of s i p]
    by (simp add: check_timeout_expired [OF True] client_stop_def)
next
  case False
  show ?thesis
    using False serve_slot_idle [of s i p] by (simp add: check_timeout_idle)
qed

lemma idle_since_simps [simp]:
  "telnetClients (idle_since t) 0 = held 1 t"
  "wire (idle_since t) = []"
  "telnet_events m (idle_since t) = [Sent 1 m]"
  by (simp_all add: idle_since_def initial_server_def telnet_events_eval default_config_def
      free_slot_def)

text \<open>
  For instance, a client idle for exactly 600000 ms stays, one idle for 600001 ms is
  freed, and so is one whose last activity lies before a wrap of the clock.
\<close>

theorem idle_reaper_witness:
  "millis (bench\<lparr>millis := 601000\<rparr>) - lastActivity (telnetClients (idle_since 1000) 0) = 600000
   \<and> serve_slot (bench\<lparr>millis := 601000\<rparr>) 0 (idle_since 1000) = Running (idle_since 1000)
   \<and> millis (bench\<lparr>millis := 601001\<rparr>) - lastActivity (telnetClients (idle_since 1000) 0) = 600001
   \<and> \<not> connected (telnetClients
         (final (serve_slot (bench\<lparr>millis := 601001\<rparr>) 0 (idle_since 1000))) 0)
   \<and> wire (final (serve_slot (bench\<lparr>millis := 601001\<rparr>) 0 (idle_since 1000))) =
        [Sent 1 timeout_log, Sent 1 (remoteIP (peer 1) @ CRLF), Sent 1 timeout_notice, Closed 1]
   \<and> millis (bench\<lparr>millis := 5\<rparr>) - lastActivity (telnetClients (idle_since 4294367200) 0) = 600101
   \<and> \<not> connected (telnetClients
         (final (serve_slot (bench\<lparr>millis := 5\<rparr>) 0 (idle_since 4294367200))) 0)"
proof -
  have live: "slot_live (idle_since t) 0 \<and> rxbuf (client (telnetClients (idle_since t) 0)) = []" for t
    by (simp add: slot_live_def)
  from idle_reaper [of "bench\<lparr>millis := 601000\<rparr>" 0 "idle_since 1000"]
    idle_reaper [of "bench\<lparr>millis := 601001\<rparr>" 0 "idle_since 1000"]
    idle_reaper [of "bench\<lparr>millis := 5\<rparr>" 0 "idle_since 4294367200"]
    live
  show ?thesis by simp
qed

subsection \<open>Freeing a slot twice\<close>

lemma disconnectTelnetClients_fold:
  "disconnectTelnetClients s = foldl shut_slot s [0..<MAX_TELNET_CLIENTS]"
  by (simp add: disconnectTelnetClients_def shut_slot_def [abs_def])

lemma shut_slot_free: "\<not> connected (telnetClients s i) \<Longrightarrow> shut_slot s i = s"
  by (simp add: shut_slot_def)

lemma shut_slot_connected:
  "connected (telnetClients (shut_slot s i) j) \<longleftrightarrow> connected (telnetClients s j) \<and> j \<noteq> i"
  by (auto simp: shut_slot_def set_connected_def slot_stop_def slot_print_def)

lemma shut_all_connected:
  "connected (telnetClients (foldl shut_slot s is) j) \<longleftrightarrow> connected (telnetClients s j) \<and> j \<notin> set is"
  by (induction "is" arbitrary: s) (auto simp: shut_slot_connected)

lemma shut_all_free:
  "\<forall>i \<in> set is. \<not> connected (telnetClients s i) \<Longrightarrow> foldl shut_slot s is = s"
  by (induction "is" arbitrary: s) (simp_all add: shut_slot_free)

lemma disconnectTelnetClients_free:
  "\<forall>i<MAX_TELNET_CLIENTS. \<not> connected (telnetClients s i) \<Longrightarrow> disconnectTelnetClients s = s"
  by (simp add: disconnectTelnetClients_fold shut_all_free)

lemma disconnectTelnetClients_twice:
  "disconnectTelnetClients (disconnectTelnetClients s) = disconnectTelnetClients s"
  by (rule disconnectTelnetClients_free) (simp add: disconnectTelnetClients_fold shut_all_connected)

lemma c_str_literals:
  "c_str ''help'' = ''help''" "c_str ''?'' = ''?''" "c_str ''status'' = ''status''"
  "c_str ''restart'' = ''restart''" "c_str ''factoryreset'' = ''factoryreset''"
  "c_str ''clients'' = ''clients''" "c_str ''wifi'' = ''wifi''" "c_str ''memory'' = ''memory''"
  "c_str ''config'' = ''config''" "c_str ''clear'' = ''clear''" "c_str ''cls'' = ''cls''"
  "c_str ''disconnect'' = ''disconnect''"
  by (simp_all add: c_str_def)

lemma dispatch_by_c_str:
  "c_str command = ''help'' \<Longrightarrow> dispatch p i command s = Running (slot_print i help_message s)"
  "c_str command = ''?'' \<Longrightarrow> dispatch p i command s = Running (slot_print i help_message s)"
  "c_str command = ''status'' \<Longrightarrow>
     dispatch p i command s = Running (slot_print i (status_message p s) s)"
  "c_str command = ''restart'' \<Longrightarrow>
     dispatch p i command s = restartDevice (slot_print i restart_notice s)"
  "c_str command = ''factoryreset'' \<Longrightarrow>
     dispatch p i command s = factoryReset (slot_print i factory_notice s)"
  "c_str command = ''clients'' \<Longrightarrow>
     dispatch p i command s = Running (slot_print i (clients_message p s) s)"
  "c_str command = ''wifi'' \<Longrightarrow> dispatch p i command s = Running (slot_print i (wifi_message p) s)"
  "c_str command = ''memory'' \<Longrightarrow>
     dispatch p i command s = Running (slot_print i (memory_message p) s)"
  "c_str command = ''config'' \<Longrightarrow>
     dispatch p i command s = Running (slot_print i (config_message s) s)"
  "c_str command = ''clear'' \<Longrightarrow>
     dispatch p i command s = Running (slot_print i PROMPT (slot_print i clear_screen s))"
  "c_str command = ''cls'' \<Longrightarrow>
     dispatch p i command s = Running (slot_print i PROMPT (slot_print i clear_screen s))"
  "c_str command = ''disconnect'' \<Longrightarrow>
     dispatch p i command s =
       Running (set_connected i False (slot_stop i (slot_print i disconnect_notice s)))"
  by (simp_all add: dispatch_def String_equals_def c_str_literals)

lemma dispatch_disconnect:
  "dispatch p i ''disconnect'' s =
     Running (set_connected i False (slot_stop i (slot_print i disconnect_notice s)))"
  by (rule dispatch_by_c_str) (rule c_str_literals)

lemma client_stop_twice [simp]: "client_stop (client_stop c) = client_stop c"
  by (simp add: client_stop_def)

lemma serve_slot_free: "\<not> connected (telnetClients s i) \<Longrightarrow> serve_slot p i s = Running s"
  by (simp add: serve_slot_def slot_live_def client_gone_def)

lemma three_clients_slots [simp]:
  "telnetClients three_clients 0 = held 1 1000"
  "telnetClients three_clients (Suc 0) = held 2 1000"
  "telnetClients three_clients 2 = held 3 1000"
  "wire three_clients = []"
  by (simp_all add: three_clients_def initial_server_def numeral_2_eq_2 numeral_3_eq_3)

text \<open>
  Claim C4. The code frees slots in \<^verbatim>\<open>disconnectTelnetClients\<close> and in the
  \<^verbatim>\<open>disconnect\<close> branch. Doing either a second time changes nothing: the state after
  two runs is the state after one, wire included. A slot that is not marked connected is
  left alone: \<^verbatim>\<open>disconnectTelnetClients\<close> returns a table of free slots as it was, and
  the serving loop passes over a free slot, so a slot freed by \<^verbatim>\<open>disconnect\<close> is not
  freed again by a later call.
\<close>

theorem eviction_idempotent:
  "disconnectTelnetClients (disconnectTelnetClients s) = disconnectTelnetClients s
   \<and> final (dispatch p i ''disconnect'' (final (dispatch p i ''disconnect'' s)))
       = final (dispatch p i ''disconnect'' s)
   \<and> serve_slot p' i (final (dispatch p i ''disconnect'' s))
       = Running (final (dispatch p i ''disconnect'' s))
   \<and> ((\<forall>j<MAX_TELNET_CLIENTS. \<not> connected (telnetClients s j)) \<longrightarrow> disconnectTelnetClients s = s)
   \<and> (\<not> connected (telnetClients s i) \<longrightarrow> serve_slot p i s = Running s)"
proof -
  let ?e = "set_connected i False (slot_stop i (slot_print i disconnect_notice s))"
  have twice: "set_connected i False (slot_stop i (slot_print i disconnect_notice ?e)) = ?e"
    by (simp add: set_connected_def slot_stop_def slot_print_def client_print_def stop_event_def
        client_stop_def)
  have freed: "\<not> connected (telnetClients ?e i)"
    by (simp add: set_connected_def)
  show ?thesis
    by (simp add: disconnectTelnetClients_twice dispatch_disconnect twice
        serve_slot_free [OF freed] disconnectTelnetClients_free serve_slot_free)
qed

theorem eviction_idempotent_witness:
  "disconnectTelnetClients initial_server = initial_server
   \<and> serve_slot bench 0 initial_server = Running initial_server
   \<and> wire (disconnectTelnetClients three_clients) =
        [Sent 1 shutdown_notice, Closed 1, Sent 2 shutdown_notice, Closed 2,
         Sent 3 shutdown_notice, Closed 3]
   \<and> disconnectTelnetClients (disconnectTelnetClients three_clients)
        = disconnectTelnetClients three_clients
   \<and> wire (final (dispatch bench 0 ''disconnect'' three_clients)) = [Sent 1 disconnect_notice, Closed 1]
   \<and> final (dispatch bench 0 ''disconnect'' (final (dispatch bench 0 ''disconnect'' three_clients)))
        = final (dispatch bench 0 ''disconnect'' three_clients)
   \<and> serve_slot (bench\<lparr>millis := 9000\<rparr>) 0 (final (dispatch bench 0 ''disconnect'' three_clients))
        = Running (final (dispatch bench 0 ''disconnect'' three_clients))"
proof -
  have free: "\<forall>j<MAX_TELNET_CLIENTS. \<not> connected (telnetClients initial_server j)"
    "\<not> connected (telnetClients initial_server 0)"
    by (simp_all add: initial_server_def free_slot_def)
  have w1: "wire (disconnectTelnetClients three_clients) =
        [Sent 1 shutdown_notice, Closed 1, Sent 2 shutdown_notice, Closed 2,
         Sent 3 shutdown_notice, Closed 3]"
    by (simp add: disconnectTelnetClients_def slot_ids set_connected_def slot_stop_def
        slot_print_def client_print_def stop_event_def)
  have w2: "wire (final (dispatch bench 0 ''disconnect'' three_clients))
              = [Sent 1 disconnect_notice, Closed 1]"
    by (simp add: dispatch_disconnect set_connected_def slot_stop_def
        slot_print_def client_print_def stop_event_def)
  from eviction_idempotent [of initial_server bench 0 "bench\<lparr>millis := 9000\<rparr>"]
    eviction_idempotent [of three_clients bench 0 "bench\<lparr>millis := 9000\<rparr>"] free w1 w2
  show ?thesis by simp
qed

subsection \<open>Commands outside the fixed vocabulary\<close>

lemma dispatch_custom:
  assumes "c_str command \<notin> set builtin_commands"
  shows "dispatch p i command s =
     (case telnetCommandCallback s of
        Some callback \<Rightarrow> run_hook i (callback command (client (telnetClients s i))) s
      | None \<Rightarrow> Running (slot_print i unknown_message s))"
  using assms by (simp add: dispatch_def String_equals_def c_str_literals builtin_commands_def)

abbreviation (input) hooked :: "telnet_hook option \<Rightarrow> server \<Rightarrow> server" where
  "hooked cb s \<equiv> s\<lparr>telnetCommandCallback := cb\<rparr>"


lemma hooked_telnet_events [simp]: "telnet_events m (hooked cb s) = telnet_events m s"
  by (rule telnet_events_cong) simp_all

lemma hooked_getTelnetClientCount [simp]:
  "getTelnetClientCount (hooked cb s) = getTelnetClientCount s"
  by (rule getTelnetClientCount_cong_tc) simp







lemma dispatch_simps:
  "dispatch p i ''help'' s = Running (slot_print i help_message s)"
  "dispatch p i ''?'' s = Running (slot_print i help_message s)"
  "dispatch p i ''status'' s = Running (slot_print i (status_message p s) s)"
  "dispatch p i ''restart'' s = restartDevice (slot_print i restart_notice s)"
  "dispatch p i ''factoryreset'' s = factoryReset (slot_print i factory_notice s)"
  "dispatch p i ''clients'' s = Running (slot_print i (clients_message p s) s)"
  "dispatch p i ''wifi'' s = Running (slot_print i (wifi_message p) s)"
  "dispatch p i ''memory'' s = Running (slot_print i (memory_message p) s)"
  "dispatch p i ''config'' s = Running (slot_print i (config_message s) s)"
  "dispatch p i ''clear'' s = Running (slot_print i PROMPT (slot_print i clear_screen s))"
  "dispatch p i ''cls'' s = Running (slot_print i PROMPT (slot_print i clear_screen s))"
  "dispatch p i ''disconnect'' s =
     Running (set_connected i False (slot_stop i (slot_print i disconnect_notice s)))"
  by (simp_all add: dispatch_by_c_str c_str_literals)

lemma builtin_disj:
  assumes "command \<in> set builtin_commands"
  shows "command = ''help'' \<or> command = ''?'' \<or> command = ''status''
    \<or> command = ''restart'' \<or> command = ''factoryreset'' \<or> command = ''clients''
    \<or> command = ''wifi'' \<or> command = ''memory'' \<or> command = ''config''
    \<or> command = ''clear'' \<or> command = ''cls'' \<or> command = ''disconnect''"
  using assms unfolding builtin_commands_def by (simp only: list.set insert_iff empty_iff simp_thms)



lemma unknown_message_bytes:
  "unknown_message =
     [CHR 0xE2, CHR 0x9D, CHR 0x8C] @ '' Unknown command. Type 'help' for available commands.''
       @ [CHR 0x0D, CHR 0x0A] @ ''> ''"
  by (simp add: unknown_message_def emoji_cross_def CRLF_def PROMPT_def)



subsection \<open>The prompt\<close>

lemma sent_to_append: "sent_to k (a @ b) = sent_to k a @ sent_to k b"
  by (induction k a rule: sent_to.induct) simp_all

lemma endsWith_self: "endsWith p p"
  by (simp add: endsWith_def)

lemma endsWith_append: "endsWith ys p \<Longrightarrow> endsWith (xs @ ys) p"
proof -
  assume e: "endsWith ys p"
  then have le: "length p \<le> length ys" and dr: "drop (length ys - length p) ys = p"
    by (simp_all add: endsWith_def)
  have "length (xs @ ys) - length p = length xs + (length ys - length p)"
    using le by simp
  then have "drop (length (xs @ ys) - length p) (xs @ ys) = p"
    using dr by simp
  with le show ?thesis by (simp add: endsWith_def)
qed

lemma endsWith_texts:
  "endsWith help_message PROMPT"
  "endsWith (status_message p s) PROMPT"
  "endsWith (clients_message p s) PROMPT"
  "endsWith (wifi_message p) PROMPT"
  "endsWith (memory_message p) PROMPT"
  "endsWith (config_message s) PROMPT"
  "endsWith unknown_message PROMPT"
  unfolding help_message_def status_message_def clients_message_def wifi_message_def
    memory_message_def config_message_def unknown_message_def
  by (intro endsWith_append endsWith_self)+

lemma prompt_reply:
  assumes "sock_open (client (telnetClients s i))" and "endsWith m PROMPT"
  shows "endsWith (sent_to (fd (client (telnetClients s i))) (wire (slot_print i m s))) PROMPT"
  using assms by (simp add: slot_print_def client_print_def sent_to_append endsWith_append)

lemma prompt_cases:
  assumes "command \<in> set prompt_commands"
  obtains "command = ''help''" | "command = ''?''" | "command = ''status''"
    | "command = ''clients''" | "command = ''wifi''" | "command = ''memory''"
    | "command = ''config''" | "command = ''clear''" | "command = ''cls''"
proof -
  from assms have "command = ''help'' \<or> command = ''?'' \<or> command = ''status''
    \<or> command = ''clients'' \<or> command = ''wifi'' \<or> command = ''memory''
    \<or> command = ''config'' \<or> command = ''clear'' \<or> command = ''cls''"
    unfolding prompt_commands_def by (simp only: list.set insert_iff empty_iff simp_thms)
  then show thesis
    by (elim disjE) (assumption | erule that)+
qed

lemma dispatch_prompt:
  assumes op: "sock_open (client (telnetClients s i))"
    and cmd: "c_str command \<in> set prompt_commands"
  shows "dispatch p i command s = Running (final (dispatch p i command s))
       \<and> endsWith (sent_to (fd (client (telnetClients s i))) (wire (final (dispatch p i command s)))) PROMPT"
proof -
  have clear: "endsWith (sent_to (fd (client (telnetClients s i)))
      (wire (slot_print i PROMPT (slot_print i clear_screen s)))) PROMPT"
    using op by (simp add: slot_print_def client_print_def sent_to_append endsWith_append endsWith_self)
  from cmd show ?thesis
    by (cases rule: prompt_cases)
       (simp_all add: dispatch_by_c_str prompt_reply [OF op] endsWith_texts clear)
qed

lemma dispatch_unknown_prompt:
  assumes op: "sock_open (client (telnetClients s i))"
    and cmd: "c_str command \<notin> set builtin_commands" and none: "telnetCommandCallback s = None"
  shows "dispatch p i command s = Running (final (dispatch p i command s))
       \<and> endsWith (sent_to (fd (client (telnetClients s i))) (wire (final (dispatch p i command s)))) PROMPT"
  using none by (simp add: dispatch_custom [OF cmd] prompt_reply [OF op] endsWith_texts)

lemma notices_end:
  "\<not> endsWith restart_notice PROMPT" "\<not> endsWith factory_notice PROMPT"
  "\<not> endsWith disconnect_notice PROMPT"
  by (simp_all add: endsWith_def restart_notice_def factory_notice_def disconnect_notice_def
      PROMPT_def CRLF_def emoji_arrows_def emoji_bin_def emoji_wave_def)

lemma PROMPT_bytes: "PROMPT = ''> ''"
  by (simp add: PROMPT_def)

text \<open>
  Claim C7, as amended. A command is read as \<^verbatim>\<open>strcmp\<close> reads it, up to its first NUL
  byte. On an open transport, the branches of \<^verbatim>\<open>help\<close>, \<^verbatim>\<open>?\<close>, \<^verbatim>\<open>status\<close>, \<^verbatim>\<open>clients\<close>,
  \<^verbatim>\<open>wifi\<close>, \<^verbatim>\<open>memory\<close>, \<^verbatim>\<open>config\<close>, \<^verbatim>\<open>clear\<close> and \<^verbatim>\<open>cls\<close>, and the unknown-command
  reply given when no callback is registered, leave the device running and end with the
  prompt, the two bytes \<^verbatim>\<open>> \<close>, as the last bytes sent to the issuing client. The
  branches of \<^verbatim>\<open>restart\<close>, \<^verbatim>\<open>factoryreset\<close> and \<^verbatim>\<open>disconnect\<close> print their notice, which
  does not end with the prompt, and print nothing after it to the issuer but log and
  shutdown lines; the first two end in a restart of the device.
\<close>

theorem prompt_after_reply:
  assumes op: "sock_open (client (telnetClients s i))"
  shows "(c_str command \<in> set prompt_commands
          \<or> c_str command \<notin> set builtin_commands \<and> telnetCommandCallback s = None \<longrightarrow>
            dispatch p i command s = Running (final (dispatch p i command s))
            \<and> endsWith (sent_to (fd (client (telnetClients s i)))
                          (wire (final (dispatch p i command s)))) ''> '')
       \<and> (c_str command = ''restart'' \<longrightarrow>
            dispatch p i command s =
              Restarted (s\<lparr>wire := wire s @ Sent (fd (client (telnetClients s i))) restart_notice
                                      # telnet_events (restart_log @ CRLF) s\<rparr>))
       \<and> (c_str command = ''factoryreset'' \<longrightarrow>
            dispatch p i command s =
              Restarted (disconnectTelnetClients
                (s\<lparr>wire := wire s @ Sent (fd (client (telnetClients s i))) factory_notice
                                      # telnet_events (factory_log @ CRLF) s\<rparr>)))
       \<and> (c_str command = ''disconnect'' \<longrightarrow>
            wire (final (dispatch p i command s)) =
              wire s @ [Sent (fd (client (telnetClients s i))) disconnect_notice,
                        Closed (fd (client (telnetClients s i)))])
       \<and> \<not> endsWith restart_notice ''> ''
       \<and> \<not> endsWith factory_notice ''> ''
       \<and> \<not> endsWith disconnect_notice ''> ''"
proof -
  have "dispatch p i command s =
           Restarted (s\<lparr>wire := wire s @ Sent (fd (client (telnetClients s i))) restart_notice
                                   # telnet_events (restart_log @ CRLF) s\<rparr>)"
    if "c_str command = ''restart''"
    using op that
    by (simp add: dispatch_by_c_str restartDevice_def slot_print_def client_print_def log_eqs)
  moreover have "dispatch p i command s =
           Restarted (disconnectTelnetClients
             (s\<lparr>wire := wire s @ Sent (fd (client (telnetClients s i))) factory_notice
                                   # telnet_events (factory_log @ CRLF) s\<rparr>))"
    if "c_str command = ''factoryreset''"
    using op that
    by (simp add: dispatch_by_c_str factoryReset_def slot_print_def client_print_def log_eqs)
  moreover have "wire (final (dispatch p i command s)) =
           wire s @ [Sent (fd (client (telnetClients s i))) disconnect_notice,
                     Closed (fd (client (telnetClients s i)))]"
    if "c_str command = ''disconnect''"
    using op that
    by (simp add: dispatch_by_c_str set_connected_def slot_stop_def slot_print_def
        client_print_def stop_event_def)
  ultimately show ?thesis
    using dispatch_prompt [OF op, of command p] dispatch_unknown_prompt [OF op, of command p]
      notices_end
    unfolding PROMPT_bytes
    by blast
qed

text \<open>
  For instance, with three clients and no callback: \<^verbatim>\<open>status\<close> and the unknown \<^verbatim>\<open>foobar\<close>
  end with the prompt; \<^verbatim>\<open>disconnect\<close> sends its notice and closes; \<^verbatim>\<open>restart\<close>, also when
  followed by a NUL byte, restarts after its notice and its log line.
\<close>

theorem prompt_after_reply_witness:
  "sock_open (client (telnetClients three_clients 0))
   \<and> c_str ''status'' \<in> set prompt_commands
   \<and> dispatch bench 0 ''status'' three_clients
        = Running (final (dispatch bench 0 ''status'' three_clients))
   \<and> endsWith (sent_to 1 (wire (final (dispatch bench 0 ''status'' three_clients)))) ''> ''
   \<and> c_str ''foobar'' \<notin> set builtin_commands
   \<and> telnetCommandCallback three_clients = None
   \<and> endsWith (sent_to 1 (wire (final (dispatch bench 0 ''foobar'' three_clients)))) ''> ''
   \<and> c_str ''disconnect'' = ''disconnect''
   \<and> wire (final (dispatch bench 0 ''disconnect'' three_clients))
        = [Sent 1 disconnect_notice, Closed 1]
   \<and> c_str ''factoryreset'' = ''factoryreset''
   \<and> dispatch bench 0 ''factoryreset'' three_clients
        = Restarted (disconnectTelnetClients
            (three_clients\<lparr>wire := [Sent 1 factory_notice, Sent 1 (factory_log @ CRLF),
               Sent 2 (factory_log @ CRLF), Sent 3 (factory_log @ CRLF)]\<rparr>))
   \<and> c_str (''restart'' @ [CHR 0x00]) = ''restart''
   \<and> dispatch bench 0 (''restart'' @ [CHR 0x00]) three_clients
        = Restarted (three_clients\<lparr>wire := [Sent 1 restart_notice, Sent 1 (restart_log @ CRLF),
            Sent 2 (restart_log @ CRLF), Sent 3 (restart_log @ CRLF)]\<rparr>)"
proof -
  have op: "sock_open (client (telnetClients three_clients 0))" by simp
  have c1: "c_str ''status'' \<in> set prompt_commands" by (simp add: prompt_commands_def c_str_def)
  have c2: "c_str ''foobar'' \<notin> set builtin_commands" by (simp add: builtin_commands_def c_str_def)
  have c3: "c_str ''disconnect'' = ''disconnect''" "c_str ''factoryreset'' = ''factoryreset''"
    "c_str (''restart'' @ [CHR 0x00]) = ''restart''"
    by (simp_all add: c_str_def)
  have none: "telnetCommandCallback three_clients = None"
    by (simp add: three_clients_def initial_server_def)
  have w: "wire three_clients = []" "fd (client (telnetClients three_clients 0)) = 1"
    by (simp_all add: three_clients_def initial_server_def)
  have a1: "dispatch bench 0 ''status'' three_clients
        = Running (final (dispatch bench 0 ''status'' three_clients))
      \<and> endsWith (sent_to 1 (wire (final (dispatch bench 0 ''status'' three_clients)))) ''> ''"
    using prompt_after_reply [OF op, of "''status''" bench] c1 by (simp add: w)
  have a2: "endsWith (sent_to 1 (wire (final (dispatch bench 0 ''foobar'' three_clients)))) ''> ''"
    using prompt_after_reply [OF op, of "''foobar''" bench] c2 none by (simp add: w)
  have a3: "wire (final (dispatch bench 0 ''disconnect'' three_clients))
        = [Sent 1 disconnect_notice, Closed 1]"
    using prompt_after_reply [OF op, of "''disconnect''" bench] c3 by (simp add: w)
  have a4: "dispatch bench 0 ''factoryreset'' three_clients
        = Restarted (disconnectTelnetClients
            (three_clients\<lparr>wire := [Sent 1 factory_notice, Sent 1 (factory_log @ CRLF),
               Sent 2 (factory_log @ CRLF), Sent 3 (factory_log @ CRLF)]\<rparr>))"
    using prompt_after_reply [OF op, of "''factoryreset''" bench] c3
    by (simp add: w telnet_events_three_clients)
  have a5: "dispatch bench 0 (''restart'' @ [CHR 0x00]) three_clients
        = Restarted (three_clients\<lparr>wire := [Sent 1 restart_notice, Sent 1 (restart_log @ CRLF),
            Sent 2 (restart_log @ CRLF), Sent 3 (restart_log @ CRLF)]\<rparr>)"
    using prompt_after_reply [OF op, of "''restart'' @ [CHR 0x00]" bench] c3
    by (simp add: w telnet_events_three_clients)
  from op c1 a1 c2 none a2 c3 a3 a4 a5 show ?thesis by (intro conjI) simp_all
qed

text \<open>
  Claim C7 as stated fails: after \<^verbatim>\<open>disconnect\<close> and after \<^verbatim>\<open>restart\<close>, what the issuing
  client has been sent does not end with the prompt.
\<close>

theorem no_prompt_after_disconnect:
  "sent_to 1 (wire (final (dispatch bench 0 ''disconnect'' three_clients))) = disconnect_notice
   \<and> \<not> endsWith (sent_to 1 (wire (final (dispatch bench 0 ''disconnect'' three_clients)))) PROMPT
   \<and> sent_to 1 (wire (final (dispatch bench 0 ''restart'' three_clients)))
        = restart_notice @ restart_log @ CRLF
   \<and> \<not> endsWith (sent_to 1 (wire (final (dispatch bench 0 ''restart'' three_clients)))) PROMPT"
proof -
  have d: "sent_to 1 (wire (final (dispatch bench 0 ''disconnect'' three_clients))) = disconnect_notice"
    by (simp add: dispatch_simps set_connected_def slot_stop_def slot_print_def
        client_print_def stop_event_def)
  have r: "sent_to 1 (wire (final (dispatch bench 0 ''restart'' three_clients)))
        = restart_notice @ restart_log @ CRLF"
    by (simp add: dispatch_simps restartDevice_def slot_print_def client_print_def log_eqs
        telnet_events_three_clients)
  have "\<not> endsWith (restart_notice @ restart_log @ CRLF) PROMPT"
    by (simp add: endsWith_def restart_notice_def restart_log_def PROMPT_def CRLF_def
        emoji_arrows_def)
  with d r notices_end show ?thesis by simp
qed

subsection \<open>Reading lines\<close>

text \<open>The definitions that evaluate one call of \<^verbatim>\<open>handleTelnet\<close> on a concrete state.\<close>

lemmas run_defs = handleTelnet_def accept_pending_def hasClient_def slot_ids serve_slot_def
  drain.simps receive_def set_rxbuf_def slot_live_def client_gone_def check_timeout_def
  handle_command_def set_lastActivity_def log_eqs telnet_events_eval slot_print_def
  client_print_def trim_def isspace_def Let_def

lemma idle_since_fields [simp]:
  "pending (idle_since t) = []" "telnetCommandCallback (idle_since t) = None"
  "enableTelnet (config (idle_since t))"
  "telnetClients (idle_since t) (Suc 0) = free_slot" "telnetClients (idle_since t) 2 = free_slot"
  by (simp_all add: idle_since_def initial_server_def default_config_def)

lemma free_slot_simps [simp]: "\<not> connected free_slot" "\<not> sock_open (client free_slot)"
  by (simp_all add: free_slot_def null_client_def)

lemma he_not_builtin:
  "c_str ''he'' \<notin> set builtin_commands" "c_str ''llo'' \<notin> set builtin_commands"
  by (simp_all add: builtin_commands_def c_str_def)

lemma readStringUntil_no_terminator:
  "t \<notin> set xs \<Longrightarrow> readStringUntil t xs = (xs, [])"
  by (induction xs) auto

lemma readStringUntil_terminator:
  "t \<notin> set xs \<Longrightarrow> readStringUntil t (xs @ t # rest) = (xs, rest)"
  by (induction xs) auto

lemma drain_done: "rxbuf (client (telnetClients s i)) = [] \<Longrightarrow> drain p i s = Running s"
  by (simp add: drain.simps [of p i s])

lemma rxbuf_set_rxbuf [simp]: "rxbuf (client (telnetClients (set_rxbuf i r s) i)) = r"
  by (simp add: set_rxbuf_def)

lemma handle_command_drained:
  assumes "handle_command p i command (set_rxbuf i [] s) = Running s'"
  shows "rxbuf (client (telnetClients s' i)) = []"
  using rx_len_handle_command [OF assms, of i] by (simp add: rx_len_def)

lemma drain_chunk:
  assumes nt: "CHR 0x0A \<notin> set xs" and rx: "rxbuf (client (telnetClients s i)) = xs"
    and ne: "trim xs \<noteq> []"
  shows "drain p i s = handle_command p i (trim xs) (set_rxbuf i [] s)"
proof -
  from ne have "xs \<noteq> []" by (auto simp: trim_def)
  then have unfolded: "drain p i s =
      (case handle_command p i (trim xs) (set_rxbuf i [] s) of
         Restarted s' \<Rightarrow> Restarted s' | Running s' \<Rightarrow> drain p i s')"
    using rx ne by (simp add: drain.simps [of p i s] readStringUntil_no_terminator [OF nt])
  show ?thesis
  proof (cases "handle_command p i (trim xs) (set_rxbuf i [] s)")
    case (Restarted s')
    with unfolded show ?thesis by simp
  next
    case (Running s')
    with unfolded drain_done [OF handle_command_drained [OF Running], of p] show ?thesis by simp
  qed
qed

lemma drain_blank_chunk:
  assumes nt: "CHR 0x0A \<notin> set xs" and rx: "rxbuf (client (telnetClients s i)) = xs"
    and ne: "xs \<noteq> []" and blank: "trim xs = []"
  shows "drain p i s = Running (set_rxbuf i [] s)"
  using rx ne blank
  by (simp add: drain.simps [of p i s] readStringUntil_no_terminator [OF nt] drain_done)

lemma drain_line:
  assumes nt: "CHR 0x0A \<notin> set xs" and rx: "rxbuf (client (telnetClients s i)) = xs @ CHR 0x0A # rest"
  shows "drain p i s =
     (if trim xs \<noteq> [] then
        (case handle_command p i (trim xs) (set_rxbuf i rest s) of
           Restarted s' \<Rightarrow> Restarted s' | Running s' \<Rightarrow> drain p i s')
      else drain p i (set_rxbuf i rest s))"
  using rx by (simp add: drain.simps [of p i s] readStringUntil_terminator [OF nt])

lemma drain_leaves_nothing:
  "drain p i s = Running s' \<Longrightarrow> rxbuf (client (telnetClients s' i)) = []"
proof (induction p i s rule: drain.induct)
  case (1 p i s)
  show ?case
  proof (cases "rxbuf (client (telnetClients s i)) = []")
    case True
    with "1.prems" show ?thesis by (simp add: drain.simps [of p i s])
  next
    case False
    obtain line rest where split:
      "readStringUntil (CHR 0x0A) (rxbuf (client (telnetClients s i))) = (line, rest)"
      by (cases "readStringUntil (CHR 0x0A) (rxbuf (client (telnetClients s i)))")
    show ?thesis
    proof (cases "trim line = []")
      case True
      with "1.prems" False split have "drain p i (set_rxbuf i rest s) = Running s'"
        by (simp add: drain.simps [of p i s])
      with "1.IH"(2) [OF False split [symmetric] refl refl] True show ?thesis by simp
    next
      case nonempty: False
      show ?thesis
      proof (cases "handle_command p i (trim line) (set_rxbuf i rest s)")
        case (Restarted t)
        with "1.prems" False split nonempty show ?thesis by (simp add: drain.simps [of p i s])
      next
        case (Running t)
        with "1.prems" False split nonempty have "drain p i t = Running s'"
          by (simp add: drain.simps [of p i s])
        with "1.IH"(1) [OF False split [symmetric] refl refl nonempty Running] show ?thesis .
      qed
    qed
  qed
qed

lemma rxbuf_receive_idle [simp]:
  "rxbuf (client (telnetClients (receive 0 bytes (idle_since t)) 0)) = bytes"
  by (simp add: receive_def)

text \<open>
  Claim C5, as amended. The code keeps no line buffer from one call to the next. Each
  round of the reading loop takes the unread bytes up to and including the next line
  feed, or all of them when none has arrived before the read gives up, trims them, and
  handles the result as a command when it is not empty. A chunk without a line feed is
  therefore handled at once, as a command of its own; a line that is empty after
  trimming is dropped without being handled; and when the loop ends without a restart,
  no byte of the slot is left unread.
\<close>

theorem line_framing:
  assumes nt: "CHR 0x0A \<notin> set xs"
  shows "(rxbuf (client (telnetClients s i)) = xs \<and> trim xs \<noteq> [] \<longrightarrow>
            drain p i s = handle_command p i (trim xs) (set_rxbuf i [] s))
       \<and> (rxbuf (client (telnetClients s i)) = xs @ CHR 0x0A # rest \<and> trim xs \<noteq> [] \<longrightarrow>
            drain p i s =
              (case handle_command p i (trim xs) (set_rxbuf i rest s) of
                 Restarted s' \<Rightarrow> Restarted s' | Running s' \<Rightarrow> drain p i s'))
       \<and> (rxbuf (client (telnetClients s i)) = xs @ CHR 0x0A # rest \<and> trim xs = [] \<longrightarrow>
            drain p i s = drain p i (set_rxbuf i rest s))
       \<and> (rxbuf (client (telnetClients s i)) = xs \<and> xs \<noteq> [] \<and> trim xs = [] \<longrightarrow>
            drain p i s = Running (set_rxbuf i [] s))
       \<and> (\<forall>s'. drain p i s = Running s' \<longrightarrow> rxbuf (client (telnetClients s' i)) = [])"
proof (intro conjI impI allI)
  assume "rxbuf (client (telnetClients s i)) = xs \<and> trim xs \<noteq> []"
  then show "drain p i s = handle_command p i (trim xs) (set_rxbuf i [] s)"
    using drain_chunk [OF nt, of s i p] by blast
next
  assume "rxbuf (client (telnetClients s i)) = xs @ CHR 0x0A # rest \<and> trim xs \<noteq> []"
  then show "drain p i s =
      (case handle_command p i (trim xs) (set_rxbuf i rest s) of
         Restarted s' \<Rightarrow> Restarted s' | Running s' \<Rightarrow> drain p i s')"
    using drain_line [OF nt, of s i rest p] by simp
next
  assume "rxbuf (client (telnetClients s i)) = xs @ CHR 0x0A # rest \<and> trim xs = []"
  then show "drain p i s = drain p i (set_rxbuf i rest s)"
    using drain_line [OF nt, of s i rest p] by simp
next
  assume "rxbuf (client (telnetClients s i)) = xs \<and> xs \<noteq> [] \<and> trim xs = []"
  then show "drain p i s = Running (set_rxbuf i [] s)"
    using drain_blank_chunk [OF nt, of s i p] by blast
next
  fix s' assume "drain p i s = Running s'"
  then show "rxbuf (client (telnetClients s' i)) = []"
    by (rule drain_leaves_nothing)
qed

theorem line_framing_witness:
  "CHR 0x0A \<notin> set ''he''
   \<and> drain bench 0 (receive 0 ''he'' (idle_since 1000))
       = handle_command bench 0 ''he'' (set_rxbuf 0 [] (receive 0 ''he'' (idle_since 1000)))
   \<and> drain bench 0 (receive 0 (''he'' @ CHR 0x0A # ''llo'') (idle_since 1000))
       = (case handle_command bench 0 ''he''
                 (set_rxbuf 0 ''llo'' (receive 0 (''he'' @ CHR 0x0A # ''llo'') (idle_since 1000))) of
            Restarted s' \<Rightarrow> Restarted s' | Running s' \<Rightarrow> drain bench 0 s')
   \<and> CHR 0x0A \<notin> set [CHR 0x0D]
   \<and> drain bench 0 (receive 0 ([CHR 0x0D] @ CHR 0x0A # ''x'') (idle_since 1000))
       = drain bench 0 (set_rxbuf 0 ''x'' (receive 0 ([CHR 0x0D] @ CHR 0x0A # ''x'') (idle_since 1000)))
   \<and> drain bench 0 (receive 0 [CHR 0x0D] (idle_since 1000))
       = Running (set_rxbuf 0 [] (receive 0 [CHR 0x0D] (idle_since 1000)))"
proof -
  have nt: "CHR 0x0A \<notin> set ''he''" "CHR 0x0A \<notin> set [CHR 0x0D]" by simp_all
  have tr: "trim ''he'' = ''he''" "trim [CHR 0x0D] = []"
    by (simp_all add: trim_def isspace_def)
  have rx: "rxbuf (client (telnetClients (receive 0 bytes (idle_since 1000)) 0)) = bytes" for bytes
    by simp
  have a: "drain bench 0 (receive 0 ''he'' (idle_since 1000))
       = handle_command bench 0 ''he'' (set_rxbuf 0 [] (receive 0 ''he'' (idle_since 1000)))"
    using line_framing [OF nt(1), where s = "receive 0 ''he'' (idle_since 1000)" and i = 0 and p = bench]
    by (simp add: tr)
  have b: "drain bench 0 (receive 0 (''he'' @ CHR 0x0A # ''llo'') (idle_since 1000))
       = (case handle_command bench 0 ''he''
                 (set_rxbuf 0 ''llo'' (receive 0 (''he'' @ CHR 0x0A # ''llo'') (idle_since 1000))) of
            Restarted s' \<Rightarrow> Restarted s' | Running s' \<Rightarrow> drain bench 0 s')"
    using line_framing [OF nt(1), where s = "receive 0 (''he'' @ CHR 0x0A # ''llo'') (idle_since 1000)"
        and i = 0 and rest = "''llo''" and p = bench]
    by (simp add: tr)
  have c: "drain bench 0 (receive 0 ([CHR 0x0D] @ CHR 0x0A # ''x'') (idle_since 1000))
       = drain bench 0 (set_rxbuf 0 ''x'' (receive 0 ([CHR 0x0D] @ CHR 0x0A # ''x'') (idle_since 1000)))"
    using line_framing [OF nt(2), where s = "receive 0 ([CHR 0x0D] @ CHR 0x0A # ''x'') (idle_since 1000)"
        and i = 0 and rest = "''x''" and p = bench]
    by (simp add: tr)
  have d: "drain bench 0 (receive 0 [CHR 0x0D] (idle_since 1000))
       = Running (set_rxbuf 0 [] (receive 0 [CHR 0x0D] (idle_since 1000)))"
    using line_framing [OF nt(2), where s = "receive 0 [CHR 0x0D] (idle_since 1000)" and i = 0 and p = bench]
    by (simp add: tr)
  from nt a b c d show ?thesis by (intro conjI)
qed

text \<open>
  Claim C5 as stated fails: when \<^verbatim>\<open>he\<close> is all that one call can read and \<^verbatim>\<open>llo\<close> with
  a line feed arrives for the next, the client is answered twice, once for the command
  \<^verbatim>\<open>he\<close> and once for the command \<^verbatim>\<open>llo\<close>; no command \<^verbatim>\<open>hello\<close> is handled.
\<close>

theorem split_line_two_commands:
  "wire (final (handleTelnet (bench\<lparr>millis := 5100\<rparr>)
           (receive 0 (''llo'' @ [CHR 0x0A])
              (final (handleTelnet bench (receive 0 ''he'' (idle_since 1000))))))) =
     [Sent 1 command_log, Sent 1 (remoteIP (peer 1)), Sent 1 '': '', Sent 1 (''he'' @ CRLF),
      Sent 1 unknown_message,
      Sent 1 command_log, Sent 1 (remoteIP (peer 1)), Sent 1 '': '', Sent 1 (''llo'' @ CRLF),
      Sent 1 unknown_message]"
  by (simp add: run_defs dispatch_custom [OF he_not_builtin(1)] dispatch_custom [OF he_not_builtin(2)]
      millis_bench)

text \<open>For comparison, the same bytes arriving within one call are one command.\<close>

lemma whole_line_one_command:
  "wire (final (handleTelnet bench (receive 0 (''hello'' @ [CHR 0x0D, CHR 0x0A]) (idle_since 1000)))) =
     [Sent 1 command_log, Sent 1 (remoteIP (peer 1)), Sent 1 '': '', Sent 1 (''hello'' @ CRLF),
      Sent 1 unknown_message]"
  by (simp add: run_defs dispatch_def String_equals_def c_str_def millis_bench)

subsection \<open>The time of last activity\<close>

lemma stamped_refl: "stamped p s s"
  by (simp add: stamped_def)

lemma stamped_trans: "stamped p a b \<Longrightarrow> stamped p b c \<Longrightarrow> stamped p a c"
  unfolding stamped_def by metis

lemma stamped_same:
  "(\<And>j. lastActivity (telnetClients b j) = lastActivity (telnetClients a j)) \<Longrightarrow> stamped p a b"
  by (simp add: stamped_def)

lemma lastActivity_prims [simp]:
  "lastActivity (telnetClients (slot_print i m s) j) = lastActivity (telnetClients s j)"
  "lastActivity (telnetClients (slot_stop i s) j) = lastActivity (telnetClients s j)"
  "lastActivity (telnetClients (set_connected i b s) j) = lastActivity (telnetClients s j)"
  "lastActivity (telnetClients (set_rxbuf i r s) j) = lastActivity (telnetClients s j)"
  "lastActivity (telnetClients (store_client i c s) j) = lastActivity (telnetClients s j)"
  "lastActivity (telnetClients (broadcastTelnet m s) j) = lastActivity (telnetClients s j)"
  "lastActivity (telnetClients (log_msg m s) j) = lastActivity (telnetClients s j)"
  "lastActivity (telnetClients (logln m s) j) = lastActivity (telnetClients s j)"
  "lastActivity (telnetClients (set_lastActivity i t s) j)
     = (if j = i then t else lastActivity (telnetClients s j))"
  by (simp_all add: slot_print_def slot_stop_def set_connected_def set_rxbuf_def store_client_def
      broadcastTelnet_eq log_eqs set_lastActivity_def)

lemma lastActivity_run_hook [simp]:
  "lastActivity (telnetClients (final (run_hook i as s)) j) = lastActivity (telnetClients s j)"
  by (induction i as s rule: run_hook.induct) simp_all

lemma lastActivity_disconnectTelnetClients [simp]:
  "lastActivity (telnetClients (disconnectTelnetClients s) j) = lastActivity (telnetClients s j)"
proof -
  have "lastActivity (telnetClients (foldl shut_slot s is) j) = lastActivity (telnetClients s j)"
    for "is"
    by (induction "is" arbitrary: s) (simp_all add: shut_slot_def)
  then show ?thesis by (simp add: disconnectTelnetClients_fold)
qed

lemma lastActivity_dispatch [simp]:
  "lastActivity (telnetClients (final (dispatch p i command s)) j) = lastActivity (telnetClients s j)"
  by (rule dispatch_cases) (simp_all add: restartDevice_def factoryReset_def)

lemma lastActivity_handle_command:
  "lastActivity (telnetClients (final (handle_command p i command s)) j)
     = (if j = i then millis p else lastActivity (telnetClients s j))"
  by (simp add: handle_command_def Let_def)

lemma lastActivity_check_timeout [simp]:
  "lastActivity (telnetClients (check_timeout p i s) j) = lastActivity (telnetClients s j)"
  by (simp add: check_timeout_def Let_def)

lemma lastActivity_client_gone [simp]:
  "lastActivity (telnetClients (client_gone i s) j) = lastActivity (telnetClients s j)"
  by (simp add: client_gone_def Let_def)

lemma stamped_drain: "stamped p s (final (drain p i s))"
proof (rule drain_rel [where R = "stamped p"])
  show "stamped p s s" for s by (rule stamped_refl)
  show "stamped p a c" if "stamped p a b" "stamped p b c" for a b c
    using that by (rule stamped_trans)
  show "stamped p s (set_rxbuf i rest s)" for s rest
    by (rule stamped_same) simp
  show "stamped p s (final (handle_command p i command s))" for s command
    by (simp add: stamped_def lastActivity_handle_command)
qed

lemma stamped_serve_slot: "stamped p s (final (serve_slot p i s))"
proof (rule serve_slot_rel [where R = "stamped p"])
  show "stamped p s s" for s by (rule stamped_refl)
  show "stamped p a c" if "stamped p a b" "stamped p b c" for a b c
    using that by (rule stamped_trans)
  show "stamped p s (final (drain p i s))" for s by (rule stamped_drain)
  show "stamped p s (check_timeout p i s)" for s by (rule stamped_same) simp
  show "stamped p s (client_gone i s)" for s by (rule stamped_same) simp
qed

lemma stamped_serve_slots: "stamped p s (final (serve_slots p is s))"
proof (rule serve_slots_rel [where R = "stamped p"])
  show "stamped p s s" for s by (rule stamped_refl)
  show "stamped p a c" if "stamped p a b" "stamped p b c" for a b c
    using that by (rule stamped_trans)
  show "stamped p s (final (serve_slot p i s))" for s i by (rule stamped_serve_slot)
qed

lemma lastActivity_admit_at:
  "lastActivity (telnetClients (admit_at p i s) j)
     = (if j = i then millis p else lastActivity (telnetClients s j))"
  by (simp add: admit_at_def Let_def server_available_def split: list.split)

lemma stamped_admit_scan: "stamped p s (fst (admit_scan p is s))"
  by (induction "is") (simp_all add: stamped_def lastActivity_admit_at)

lemma lastActivity_reject_pending [simp]:
  "lastActivity (telnetClients (reject_pending s) j) = lastActivity (telnetClients s j)"
  by (simp add: reject_pending_def Let_def server_available_def log_eqs split: list.split)

lemma stamped_accept_pending: "stamped p s (accept_pending p s)"
proof (cases "hasClient s")
  case True
  obtain s' acc where sc: "admit_scan p [0..<MAX_TELNET_CLIENTS] s = (s', acc)"
    by (cases "admit_scan p [0..<MAX_TELNET_CLIENTS] s")
  with stamped_admit_scan [of p s "[0..<MAX_TELNET_CLIENTS]"] have "stamped p s s'" by simp
  moreover have "stamped p s' (reject_pending s')" by (simp add: stamped_def)
  ultimately have "stamped p s (reject_pending s')" by (rule stamped_trans)
  with True sc \<open>stamped p s s'\<close> show ?thesis by (simp add: accept_pending_def)
next
  case False
  then show ?thesis by (simp add: accept_pending_def stamped_refl)
qed

lemma stamped_handleTelnet: "stamped p s (final (handleTelnet p s))"
  unfolding handleTelnet_def
  by (rule stamped_trans [OF stamped_accept_pending stamped_serve_slots])

text \<open>
  Claim C8, as amended. One call of \<^verbatim>\<open>handleTelnet\<close> leaves each slot's
  \<open>lastActivity\<close> as it was or sets it to the current \<^verbatim>\<open>millis()\<close>; so the value does
  not decrease when the 32-bit clock reading is not below it, that is, as long as the
  clock has not wrapped around since. Admission sets it to the current reading, and so
  does every line that is not empty after trimming. A line that is empty after trimming
  changes nothing of the slot but its unread bytes.
\<close>

theorem lastActivity_updates:
  "(lastActivity (telnetClients (final (handleTelnet p s)) j) = lastActivity (telnetClients s j)
      \<or> lastActivity (telnetClients (final (handleTelnet p s)) j) = millis p)
   \<and> (lastActivity (telnetClients s j) \<le> millis p \<longrightarrow>
        lastActivity (telnetClients s j) \<le> lastActivity (telnetClients (final (handleTelnet p s)) j))
   \<and> lastActivity (telnetClients (admit_at p i s) i) = millis p
   \<and> lastActivity (telnetClients (final (handle_command p i command s)) i) = millis p
   \<and> (CHR 0x0A \<notin> set xs \<and> trim xs = []
        \<and> rxbuf (client (telnetClients s i)) = xs @ [CHR 0x0A] \<longrightarrow>
          drain p i s = Running (set_rxbuf i [] s))"
proof -
  have either: "lastActivity (telnetClients (final (handleTelnet p s)) j) = lastActivity (telnetClients s j)
      \<or> lastActivity (telnetClients (final (handleTelnet p s)) j) = millis p"
    using stamped_handleTelnet [of p s] by (simp add: stamped_def)
  then have mono: "lastActivity (telnetClients s j)
      \<le> lastActivity (telnetClients (final (handleTelnet p s)) j)"
    if "lastActivity (telnetClients s j) \<le> millis p"
    using that by auto
  have blank: "drain p i s = Running (set_rxbuf i [] s)"
    if "CHR 0x0A \<notin> set xs" "trim xs = []" "rxbuf (client (telnetClients s i)) = xs @ [CHR 0x0A]"
    using that drain_line [of xs s i "[]" p] by (simp add: drain_done)
  from either mono blank show ?thesis
    by (simp add: lastActivity_admit_at lastActivity_handle_command)
qed

theorem lastActivity_updates_witness:
  "lastActivity (telnetClients (idle_since 1000) 0) \<le> millis bench
   \<and> lastActivity (telnetClients (idle_since 1000) 0)
       \<le> lastActivity (telnetClients
             (final (handleTelnet bench (receive 0 (''status'' @ [CHR 0x0A]) (idle_since 1000)))) 0)
   \<and> lastActivity (telnetClients
         (final (handleTelnet bench (receive 0 (''status'' @ [CHR 0x0A]) (idle_since 1000)))) 0) = 5000
   \<and> trim [CHR 0x0D] = []
   \<and> drain bench 0 (receive 0 ([CHR 0x0D] @ [CHR 0x0A]) (idle_since 1000))
       = Running (set_rxbuf 0 [] (receive 0 ([CHR 0x0D] @ [CHR 0x0A]) (idle_since 1000)))"
proof -
  let ?s = "receive 0 (''status'' @ [CHR 0x0A]) (idle_since 1000)"
  let ?b = "receive 0 ([CHR 0x0D] @ [CHR 0x0A]) (idle_since 1000)"
  have before: "lastActivity (telnetClients ?s 0) = 1000" "lastActivity (telnetClients (idle_since 1000) 0) = 1000"
    by (simp_all add: receive_def)
  have after: "lastActivity (telnetClients (final (handleTelnet bench ?s)) 0) = 5000"
    by (simp add: run_defs dispatch_simps millis_bench)
  have tr: "trim [CHR 0x0D] = []" "CHR 0x0A \<notin> set [CHR 0x0D]"
    by (simp_all add: trim_def isspace_def)
  have rx: "rxbuf (client (telnetClients ?b 0)) = [CHR 0x0D] @ [CHR 0x0A]" by simp
  from lastActivity_updates [where p = bench and s = ?s and j = 0]
    lastActivity_updates [where p = bench and s = ?b and i = 0 and xs = "[CHR 0x0D]"]
    before after tr rx
  show ?thesis by (simp add: millis_bench)
qed

text \<open>
  Claim C8 as stated fails twice. A client active 100 ms before the 32-bit clock wraps and
  again 50 ms after it has its \<open>lastActivity\<close> go from 4294967196 down to 50 while it
  stays connected. And a client that sends an empty line at time 5000 keeps the
  \<open>lastActivity\<close> 1000 it had.
\<close>

theorem lastActivity_not_monotone:
  "connected (telnetClients (idle_since 4294967196) 0)
   \<and> lastActivity (telnetClients (idle_since 4294967196) 0) = 4294967196
   \<and> connected (telnetClients (final (handleTelnet (bench\<lparr>millis := 50\<rparr>)
        (receive 0 (''help'' @ [CHR 0x0A]) (idle_since 4294967196)))) 0)
   \<and> lastActivity (telnetClients (final (handleTelnet (bench\<lparr>millis := 50\<rparr>)
        (receive 0 (''help'' @ [CHR 0x0A]) (idle_since 4294967196)))) 0) = 50
   \<and> (50 :: millis_t) < 4294967196
   \<and> millis bench = 5000
   \<and> lastActivity (telnetClients (final (handleTelnet bench
        (receive 0 [CHR 0x0D, CHR 0x0A] (idle_since 1000)))) 0) = 1000"
  by (simp add: run_defs dispatch_simps millis_bench)

subsection \<open>Lines of any length\<close>

lemma telnet_events_links:
  assumes "config a = config b"
    and "\<And>j. connected (telnetClients a j) = connected (telnetClients b j)"
    and "\<And>j. sock_open (client (telnetClients a j)) = sock_open (client (telnetClients b j))"
    and "\<And>j. fd (client (telnetClients a j)) = fd (client (telnetClients b j))"
  shows "telnet_events m a = telnet_events m b"
  using assms by (simp add: telnet_events_def broadcast_events_def slot_live_eq)

lemma drain_unknown:
  assumes nt: "CHR 0x0A \<notin> set xs" and rx: "rxbuf (client (telnetClients s i)) = xs"
    and ne: "trim xs \<noteq> []" and nb: "c_str (trim xs) \<notin> set builtin_commands"
    and none: "telnetCommandCallback s = None"
  shows "drain p i s =
     Running (s\<lparr>telnetClients := (telnetClients s)
                 (i := (telnetClients s i)\<lparr>client := (client (telnetClients s i))\<lparr>rxbuf := []\<rparr>,
                                            lastActivity := millis p\<rparr>),
               wire := wire s @ telnet_events command_log s
                 @ telnet_events (remoteIP (client (telnetClients s i))) s
                 @ telnet_events '': '' s
                 @ telnet_events (trim xs @ CRLF) s
                 @ (if sock_open (client (telnetClients s i))
                    then [Sent (fd (client (telnetClients s i))) unknown_message] else [])\<rparr>)"
proof -
  define t0 where "t0 = set_lastActivity i (millis p) (set_rxbuf i [] s)"
  have ev: "telnet_events m (t0\<lparr>wire := w\<rparr>) = telnet_events m s" for m w
    by (rule telnet_events_links) (simp_all add: t0_def set_lastActivity_def set_rxbuf_def)
  have ev0: "telnet_events m t0 = telnet_events m s" for m
    using ev [of m "wire t0"] by simp
  have cb: "telnetCommandCallback (t0\<lparr>wire := w\<rparr>) = None" for w
    using none by (simp add: t0_def set_lastActivity_def set_rxbuf_def)
  have ip: "remoteIP (client (telnetClients (t0\<lparr>wire := w\<rparr>) i)) = remoteIP (client (telnetClients s i))"
    for w
    by (simp add: t0_def set_lastActivity_def set_rxbuf_def)
  have op: "sock_open (client (telnetClients (t0\<lparr>wire := w\<rparr>) i)) = sock_open (client (telnetClients s i))"
    "fd (client (telnetClients (t0\<lparr>wire := w\<rparr>) i)) = fd (client (telnetClients s i))"
    for w
    by (simp_all add: t0_def set_lastActivity_def set_rxbuf_def)
  have "handle_command p i (trim xs) (set_rxbuf i [] s) =
      Running (t0\<lparr>wire := wire s @ telnet_events command_log s
                 @ telnet_events (remoteIP (client (telnetClients s i))) s
                 @ telnet_events '': '' s
                 @ telnet_events (trim xs @ CRLF) s
                 @ (if sock_open (client (telnetClients s i))
                    then [Sent (fd (client (telnetClients s i))) unknown_message] else [])\<rparr>)"
    unfolding handle_command_def Let_def t0_def [symmetric]
    by (simp add: log_eqs ev ev0 ip dispatch_custom [OF nb] cb slot_print_def client_print_def op)
       (simp add: t0_def set_lastActivity_def set_rxbuf_def)
  then show ?thesis
    unfolding drain_chunk [OF nt rx ne]
    by (simp add: t0_def set_lastActivity_def set_rxbuf_def)
qed

lemma c_str_replicate: "c \<noteq> CHR 0x00 \<Longrightarrow> c_str (replicate n c) = replicate n c"
  by (simp add: c_str_def)

lemma builtin_short:
  assumes "command \<in> set builtin_commands"
  shows "length command \<le> 12"
  using builtin_disj [OF assms] by (elim disjE) simp_all

lemma trim_replicate: "\<not> isspace c \<Longrightarrow> trim (replicate n c) = replicate n c"
  by (simp add: trim_def)

text \<open>
  Claim C9, as amended. The code puts no bound on a line. A read returns every byte up to
  the next line feed, or every unread byte when there is none, however many they are.
  Such a line is handled like any other: when what \<^verbatim>\<open>strcmp\<close> sees of the trimmed line,
  its bytes up to the first NUL, is not a built-in command and no callback is
  registered, the reading loop ends with the device running, the slot's unread bytes
  consumed and its \<open>lastActivity\<close> set, every other slot as it was, and on the wire the
  log of the whole line followed by the unknown-command reply. No other message is sent.
\<close>

theorem no_line_limit:
  assumes nt: "CHR 0x0A \<notin> set xs"
  shows "readStringUntil (CHR 0x0A) xs = (xs, [])
       \<and> readStringUntil (CHR 0x0A) (xs @ CHR 0x0A # rest) = (xs, rest)
       \<and> (rxbuf (client (telnetClients s i)) = xs \<and> trim xs \<noteq> []
            \<and> c_str (trim xs) \<notin> set builtin_commands \<and> telnetCommandCallback s = None \<longrightarrow>
          drain p i s =
            Running (s\<lparr>telnetClients := (telnetClients s)
                 (i := (telnetClients s i)\<lparr>client := (client (telnetClients s i))\<lparr>rxbuf := []\<rparr>,
                                            lastActivity := millis p\<rparr>),
               wire := wire s @ telnet_events command_log s
                 @ telnet_events (remoteIP (client (telnetClients s i))) s
                 @ telnet_events '': '' s
                 @ telnet_events (trim xs @ CRLF) s
                 @ (if sock_open (client (telnetClients s i))
                    then [Sent (fd (client (telnetClients s i)))
                           ([CHR 0xE2, CHR 0x9D, CHR 0x8C]
                            @ '' Unknown command. Type 'help' for available commands.''
                            @ [CHR 0x0D, CHR 0x0A] @ ''> '')]
                    else [])\<rparr>))"
  using drain_unknown [OF nt, of s i p]
  unfolding unknown_message_bytes [symmetric]
  by (simp add: readStringUntil_no_terminator [OF nt] readStringUntil_terminator [OF nt])

text \<open>
  For instance, 300 letters without a line feed are one line, logged in full and
  answered with the unknown-command reply.
\<close>


theorem no_line_limit_witness:
  "CHR 0x0A \<notin> set (replicate 300 (CHR ''A''))
   \<and> readStringUntil (CHR 0x0A) (replicate 300 (CHR ''A'')) = (replicate 300 (CHR ''A''), [])
   \<and> readStringUntil (CHR 0x0A) (replicate 300 (CHR ''A'') @ CHR 0x0A # ''help'')
        = (replicate 300 (CHR ''A''), ''help'')
   \<and> trim (replicate 300 (CHR ''A'')) = replicate 300 (CHR ''A'')
   \<and> c_str (replicate 300 (CHR ''A'')) = replicate 300 (CHR ''A'')
   \<and> replicate 300 (CHR ''A'') \<notin> set builtin_commands
   \<and> wire (final (drain bench 0 (receive 0 (replicate 300 (CHR ''A'')) (idle_since 1000)))) =
       [Sent 1 command_log, Sent 1 (remoteIP (peer 1)), Sent 1 '': '',
        Sent 1 (replicate 300 (CHR ''A'') @ CRLF),
        Sent 1 ([CHR 0xE2, CHR 0x9D, CHR 0x8C]
                @ '' Unknown command. Type 'help' for available commands.''
                @ [CHR 0x0D, CHR 0x0A] @ ''> '')]
   \<and> lastActivity (telnetClients
         (final (drain bench 0 (receive 0 (replicate 300 (CHR ''A'')) (idle_since 1000)))) 0) = 5000
   \<and> telnetClients
         (final (drain bench 0 (receive 0 (replicate 300 (CHR ''A'')) (idle_since 1000)))) 1 = free_slot"
proof -
  let ?xs = "replicate 300 (CHR ''A'')"
  let ?s = "receive 0 ?xs (idle_since 1000)"
  have nt: "CHR 0x0A \<notin> set ?xs" by simp
  have tr: "trim ?xs = ?xs" by (rule trim_replicate) (simp add: isspace_def)
  have ne: "?xs \<noteq> []" by simp
  have cs: "c_str ?xs = ?xs" by (rule c_str_replicate) simp
  have nb0: "?xs \<notin> set builtin_commands"
    using builtin_short [of ?xs] by auto
  have nb: "c_str (trim ?xs) \<notin> set builtin_commands"
    unfolding tr cs by (rule nb0)
  have ne': "trim ?xs \<noteq> []" unfolding tr by (rule ne)
  have none: "telnetCommandCallback ?s = None" by (simp add: receive_def set_rxbuf_def)
  have rx: "rxbuf (client (telnetClients ?s 0)) = ?xs" by simp
  note inst = no_line_limit [OF nt, where s = ?s and i = 0 and p = bench and rest = "''help''"]
  from inst rx ne' nb none have dr0: "drain bench 0 ?s =
      Running (?s\<lparr>telnetClients := (telnetClients ?s)
                 (0 := (telnetClients ?s 0)\<lparr>client := (client (telnetClients ?s 0))\<lparr>rxbuf := []\<rparr>,
                                            lastActivity := millis bench\<rparr>),
               wire := wire ?s @ telnet_events command_log ?s
                 @ telnet_events (remoteIP (client (telnetClients ?s 0))) ?s
                 @ telnet_events '': '' ?s
                 @ telnet_events (trim ?xs @ CRLF) ?s
                 @ (if sock_open (client (telnetClients ?s 0))
                    then [Sent (fd (client (telnetClients ?s 0)))
                           ([CHR 0xE2, CHR 0x9D, CHR 0x8C]
                            @ '' Unknown command. Type 'help' for available commands.''
                            @ [CHR 0x0D, CHR 0x0A] @ ''> '')]
                    else [])\<rparr>)"
    by blast
  note dr = dr0 [unfolded tr unknown_message_bytes [symmetric]]
  have "wire (final (drain bench 0 ?s)) =
       [Sent 1 command_log, Sent 1 (remoteIP (peer 1)), Sent 1 '': '',
        Sent 1 (?xs @ CRLF), Sent 1 unknown_message]"
    unfolding dr by (simp add: receive_def set_rxbuf_def telnet_events_eval)
  then have "wire (final (drain bench 0 ?s)) =
       [Sent 1 command_log, Sent 1 (remoteIP (peer 1)), Sent 1 '': '',
        Sent 1 (?xs @ CRLF),
        Sent 1 ([CHR 0xE2, CHR 0x9D, CHR 0x8C]
                @ '' Unknown command. Type 'help' for available commands.''
                @ [CHR 0x0D, CHR 0x0A] @ ''> '')]"
    unfolding unknown_message_bytes .
  moreover have "lastActivity (telnetClients (final (drain bench 0 ?s)) 0) = 5000"
    unfolding dr by (simp add: millis_bench)
  moreover have "telnetClients (final (drain bench 0 ?s)) 1 = free_slot"
    unfolding dr by (simp add: receive_def set_rxbuf_def)
  moreover from inst have "readStringUntil (CHR 0x0A) ?xs = (?xs, [])"
    and "readStringUntil (CHR 0x0A) (?xs @ CHR 0x0A # ''help'') = (?xs, ''help'')"
    by blast+
  ultimately show ?thesis using nt tr cs nb0 by (intro conjI)
qed

lemma flood:
  assumes "12 < n"
  shows "wire (final (handleTelnet bench (receive 0 (replicate n (CHR ''A'')) (idle_since 1000)))) =
     [Sent 1 command_log, Sent 1 (remoteIP (peer 1)), Sent 1 '': '',
      Sent 1 (replicate n (CHR ''A'') @ CRLF), Sent 1 unknown_message]"
proof -
  let ?xs = "replicate n (CHR ''A'')"
  let ?s = "receive 0 ?xs (idle_since 1000)"
  have nt: "CHR 0x0A \<notin> set ?xs" by simp
  have tr: "trim ?xs = ?xs" by (rule trim_replicate) (simp add: isspace_def)
  have ne: "trim ?xs \<noteq> []" using assms by (simp add: tr)
  have cs: "c_str ?xs = ?xs" by (rule c_str_replicate) simp
  have nb: "c_str (trim ?xs) \<notin> set builtin_commands"
    using builtin_short [of ?xs] assms by (auto simp: tr cs)
  have none: "telnetCommandCallback ?s = None" by (simp add: receive_def set_rxbuf_def)
  have rx: "rxbuf (client (telnetClients ?s 0)) = ?xs" by simp
  note dr = drain_unknown [OF nt rx ne nb none, of bench]
  have pend: "pending ?s = []" by (simp add: receive_def set_rxbuf_def)
  have live: "slot_live ?s 0" by (simp add: receive_def set_rxbuf_def slot_live_def)
  have step0: "serve_slot bench 0 ?s = Running (check_timeout bench 0 (final (drain bench 0 ?s)))"
    by (simp add: serve_slot_def live dr)
  have ht: "handleTelnet bench ?s
      = serve_slots bench [1, 2] (check_timeout bench 0 (final (drain bench 0 ?s)))"
    by (simp add: handleTelnet_def accept_pending_def hasClient_def pend slot_ids step0)
  show ?thesis
    unfolding ht dr tr
    by (simp add: serve_slot_def receive_def set_rxbuf_def slot_live_def client_gone_def
        check_timeout_def telnet_events_eval millis_bench)
qed

text \<open>
  Claim C9 as stated fails: 5000 bytes without a line feed are read as one line, logged
  in full and answered with the unknown-command reply; nothing is discarded and no
  message about the length is sent.
\<close>

theorem long_line_is_a_command:
  "length (replicate 5000 (CHR ''A'')) = 5000
   \<and> CHR 0x0A \<notin> set (replicate 5000 (CHR ''A''))
   \<and> readStringUntil (CHR 0x0A) (replicate 5000 (CHR ''A'')) = (replicate 5000 (CHR ''A''), [])
   \<and> wire (final (handleTelnet bench (receive 0 (replicate 5000 (CHR ''A'')) (idle_since 1000)))) =
       [Sent 1 command_log, Sent 1 (remoteIP (peer 1)), Sent 1 '': '',
        Sent 1 (replicate 5000 (CHR ''A'') @ CRLF), Sent 1 unknown_message]"
proof -
  have "CHR 0x0A \<notin> set (replicate 5000 (CHR ''A''))" by simp
  moreover from this
  have "readStringUntil (CHR 0x0A) (replicate 5000 (CHR ''A'')) = (replicate 5000 (CHR ''A''), [])"
    by (rule readStringUntil_no_terminator)
  moreover have "wire (final (handleTelnet bench (receive 0 (replicate 5000 (CHR ''A'')) (idle_since 1000)))) =
       [Sent 1 command_log, Sent 1 (remoteIP (peer 1)), Sent 1 '': '',
        Sent 1 (replicate 5000 (CHR ''A'') @ CRLF), Sent 1 unknown_message]"
    by (rule flood) simp
  moreover have "length (replicate 5000 (CHR ''A'')) = 5000" by simp
  ultimately show ?thesis by (intro conjI)
qed

subsection \<open>Broadcast\<close>

text \<open>
  Claim C10. With the telnet flag of the configuration off, \<^verbatim>\<open>broadcastTelnet\<close> and
  \<^verbatim>\<open>sendToTelnet\<close> return the state they were given: nothing is written and no slot
  changes, whatever the slots hold. With the flag on, \<^verbatim>\<open>broadcastTelnet\<close> changes
  nothing but the wire, to which it adds the message once for each index, in increasing
  order, whose slot is marked connected and whose transport is open; \<^verbatim>\<open>sendToTelnet\<close>
  does the same.
\<close>

theorem broadcastTelnet_fanout:
  "(\<not> enableTelnet (config s) \<longrightarrow>
      broadcastTelnet message s = s \<and> sendToTelnet message s = s)
   \<and> (enableTelnet (config s) \<longrightarrow>
        broadcastTelnet message s =
          s\<lparr>wire := wire s @
               map (\<lambda>i. Sent (fd (client (telnetClients s i))) message)
                 (filter (\<lambda>i. connected (telnetClients s i)
                               \<and> sock_open (client (telnetClients s i)))
                    [0..<MAX_TELNET_CLIENTS])\<rparr>
        \<and> sendToTelnet message s = broadcastTelnet message s)"
proof -
  have "slot_live s = (\<lambda>i. connected (telnetClients s i) \<and> sock_open (client (telnetClients s i)))"
    by (simp add: slot_live_def fun_eq_iff)
  then show ?thesis
    by (simp add: broadcastTelnet_eq sendToTelnet_def broadcast_events_def)
qed

text \<open>
  For instance, three open clients with the flag off receive nothing; with the flag on
  and the transport of slot 1 closed, slots 0 and 2 receive the message, in that order.
\<close>

theorem broadcastTelnet_fanout_witness:
  "\<not> enableTelnet (config muted_clients)
   \<and> connected (telnetClients muted_clients 0)
   \<and> sock_open (client (telnetClients muted_clients 0))
   \<and> broadcastTelnet ''tick'' muted_clients = muted_clients
   \<and> sendToTelnet ''tick'' muted_clients = muted_clients
   \<and> enableTelnet (config two_of_three)
   \<and> wire (broadcastTelnet ''tick'' two_of_three) = [Sent 1 ''tick'', Sent 3 ''tick'']
   \<and> telnetClients (broadcastTelnet ''tick'' two_of_three) = telnetClients two_of_three
   \<and> sendToTelnet ''tick'' two_of_three = broadcastTelnet ''tick'' two_of_three"
proof -
  have off: "\<not> enableTelnet (config muted_clients)"
    by (simp add: muted_clients_def)
  have on: "enableTelnet (config two_of_three)"
    by (simp add: two_of_three_def three_clients_def initial_server_def default_config_def)
  have slot0: "connected (telnetClients muted_clients 0)
               \<and> sock_open (client (telnetClients muted_clients 0))"
    by (simp add: muted_clients_def three_clients_def)
  have w: "wire two_of_three = []"
    by (simp add: two_of_three_def three_clients_def initial_server_def)
  have sel: "filter (\<lambda>i. connected (telnetClients two_of_three i)
                          \<and> sock_open (client (telnetClients two_of_three i)))
               [0..<MAX_TELNET_CLIENTS] = [0, 2]"
    by (simp add: slot_ids two_of_three_def three_clients_def client_stop_def)
  have fds: "fd (client (telnetClients two_of_three 0)) = 1"
    "fd (client (telnetClients two_of_three 2)) = 3"
    by (simp_all add: two_of_three_def three_clients_def)
  from broadcastTelnet_fanout [of muted_clients "''tick''"]
    broadcastTelnet_fanout [of two_of_three "''tick''"] off on slot0
  show ?thesis by (simp add: sel fds w)
qed

end
